theory Spec2Isabelle
  imports Main
begin

section \<open>Data model of the voice-messaging schema\<close>

text \<open>
  The tables of \<^verbatim>\<open>supabase/migrations/bundled_migration_fixed.sql\<close>. A UUID is an
  opaque key, modelled as a natural number. The \<^verbatim>\<open>role\<close> column is TEXT with a CHECK
  constraint admitting three literals, modelled as a datatype. Columns that no policy,
  constraint or trigger reads (\<^verbatim>\<open>created_at\<close>, \<^verbatim>\<open>avatar_url\<close>, \<^verbatim>\<open>added_at\<close>) are left out,
  and so are the tables \<^verbatim>\<open>bookmarks\<close> and \<^verbatim>\<open>favorites\<close>, which nothing below reads.
  A nullable column is an \<open>option\<close>. The value of \<^verbatim>\<open>auth.uid()\<close> is an explicit argument
  \<open>uid\<close> of every policy: the requester is an authenticated principal.
\<close>

type_synonym uuid = nat

datatype role = Client | Mentor | Training_director

record profile =
  p_id :: uuid
  p_role :: role
  p_mentor_id :: "uuid option"
  p_director_id :: "uuid option"
  p_full_name :: string

record conversation =
  c_id :: uuid
  c_client_id :: uuid
  c_mentor_id :: uuid

record participant =
  cp_conversation_id :: uuid
  cp_user_id :: uuid
  cp_role :: role

record audio_message =
  m_id :: uuid
  m_conversation_id :: uuid
  m_sender_id :: uuid
  m_audio_url :: string
  m_duration :: int
  m_text_transcript :: "string option"

record folder =
  f_id :: uuid
  f_owner_id :: uuid
  f_name :: string

record folder_item =
  fi_folder_id :: uuid
  fi_message_id :: uuid

record storage_object =
  o_bucket_id :: string
  o_name :: string
  o_owner :: "uuid option"

record db =
  profiles :: "profile list"
  conversations :: "conversation list"
  conversation_participants :: "participant list"
  audio_messages :: "audio_message list"
  folders :: "folder list"
  folder_items :: "folder_item list"
  storage_objects :: "storage_object list"

text \<open>
  A statement that raises leaves the database as it was. The constructors follow the
  SQLSTATE classes the schema can raise: a row-level-security check that fails, a primary
  key that is already taken (with the constraint's name), a foreign key that does not
  resolve (with the constraint's name), and a text that is not a UUID.
\<close>

datatype pg_error =
  Insufficient_privilege
  | Unique_violation string
  | Foreign_key_violation string
  | Invalid_text_representation

definition run :: "(db \<Rightarrow> pg_error + db) \<Rightarrow> db \<Rightarrow> db \<times> pg_error option" where
  "run stmt d = (case stmt d of Inl e \<Rightarrow> (d, Some e) | Inr d' \<Rightarrow> (d', None))"

section \<open>Membership helper and the participant trigger\<close>

text \<open>
  \<^verbatim>\<open>is_conversation_member(conv_uuid)\<close>: a row of \<^verbatim>\<open>conversation_participants\<close> links the
  requester to the conversation.
\<close>

definition is_conversation_member :: "db \<Rightarrow> uuid \<Rightarrow> uuid \<Rightarrow> bool" where
  "is_conversation_member d uid conv_uuid =
     (\<exists>cp \<in> set (conversation_participants d).
        cp_conversation_id cp = conv_uuid \<and> cp_user_id cp = uid)"

text \<open>
  A plain \<^verbatim>\<open>INSERT INTO conversation_participants ... VALUES\<close>: the primary key
  \<^verbatim>\<open>(conversation_id, user_id)\<close> and the two foreign keys are checked; there is no
  \<^verbatim>\<open>ON CONFLICT\<close> clause.
\<close>

definition insert_conversation_participant :: "participant \<Rightarrow> db \<Rightarrow> pg_error + db" where
  "insert_conversation_participant cp d =
     (if \<exists>x \<in> set (conversation_participants d).
           cp_conversation_id x = cp_conversation_id cp \<and> cp_user_id x = cp_user_id cp
      then Inl (Unique_violation ''conversation_participants_pkey'')
      else if \<not> (\<exists>c \<in> set (conversations d). c_id c = cp_conversation_id cp)
      then Inl (Foreign_key_violation ''conversation_participants_conversation_id_fkey'')
      else if \<not> (\<exists>p \<in> set (profiles d). p_id p = cp_user_id cp)
      then Inl (Foreign_key_violation ''conversation_participants_user_id_fkey'')
      else Inr (d\<lparr>conversation_participants := conversation_participants d @ [cp]\<rparr>))"

text \<open>
  \<^verbatim>\<open>SELECT p.director_id INTO director_id FROM profiles p WHERE p.id = NEW.mentor_id\<close>:
  the first matching row's column, NULL when no row matches.
\<close>

definition select_director_id :: "db \<Rightarrow> uuid \<Rightarrow> uuid option" where
  "select_director_id d mentor_id =
     (case find (\<lambda>p. p_id p = mentor_id) (profiles d) of
        None \<Rightarrow> None
      | Some p \<Rightarrow> p_director_id p)"

text \<open>
  The trigger function \<^verbatim>\<open>add_conversation_participants()\<close>, run AFTER INSERT on
  \<^verbatim>\<open>conversations\<close> FOR EACH ROW: three inserts in sequence, the third only when the
  director is not NULL. An insert that raises aborts the function. The function is
  SECURITY DEFINER: its statements are not subject to row-level security.
\<close>

definition add_conversation_participants :: "conversation \<Rightarrow> db \<Rightarrow> pg_error + db" where
  "add_conversation_participants NEW d =
     (let director_id = select_director_id d (c_mentor_id NEW) in
      case insert_conversation_participant
             \<lparr>cp_conversation_id = c_id NEW, cp_user_id = c_client_id NEW, cp_role = Client\<rparr> d of
        Inl e \<Rightarrow> Inl e
      | Inr d1 \<Rightarrow>
          (case insert_conversation_participant
                  \<lparr>cp_conversation_id = c_id NEW, cp_user_id = c_mentor_id NEW, cp_role = Mentor\<rparr> d1 of
             Inl e \<Rightarrow> Inl e
           | Inr d2 \<Rightarrow>
               (case director_id of
                  None \<Rightarrow> Inr d2
                | Some dir \<Rightarrow>
                    insert_conversation_participant
                      \<lparr>cp_conversation_id = c_id NEW, cp_user_id = dir,
                       cp_role = Training_director\<rparr> d2)))"

text \<open>
  The policy "Clients can create conversations with their mentor" (FOR INSERT WITH CHECK).
  In the subquery \<^verbatim>\<open>id\<close> and \<^verbatim>\<open>mentor_id\<close> are columns of \<^verbatim>\<open>profiles\<close>, and \<^verbatim>\<open>client_id\<close>
  is the new conversation's. Every profile is readable ("Users can read all profiles"
  is USING (true)), so the subquery reads the whole table.
\<close>

definition conversations_insert_policy :: "db \<Rightarrow> uuid \<Rightarrow> conversation \<Rightarrow> bool" where
  "conversations_insert_policy d uid NEW =
     (c_client_id NEW = uid
      \<or> (c_mentor_id NEW = uid
          \<or> (\<exists>p \<in> set (profiles d). p_id p = c_client_id NEW \<and> p_mentor_id p = Some uid)))"

text \<open>
  \<^verbatim>\<open>INSERT INTO conversations\<close> by requester \<open>uid\<close>: the row-level-security check, the
  primary key, the two foreign keys to \<^verbatim>\<open>profiles\<close>, then the AFTER INSERT trigger on the
  table holding the new row. Any failure aborts the whole statement.
\<close>

definition insert_conversation :: "uuid \<Rightarrow> conversation \<Rightarrow> db \<Rightarrow> pg_error + db" where
  "insert_conversation uid NEW d =
     (if \<not> conversations_insert_policy d uid NEW then Inl Insufficient_privilege
      else if \<exists>c \<in> set (conversations d). c_id c = c_id NEW
      then Inl (Unique_violation ''conversations_pkey'')
      else if \<not> (\<exists>p \<in> set (profiles d). p_id p = c_client_id NEW)
      then Inl (Foreign_key_violation ''conversations_client_id_fkey'')
      else if \<not> (\<exists>p \<in> set (profiles d). p_id p = c_mentor_id NEW)
      then Inl (Foreign_key_violation ''conversations_mentor_id_fkey'')
      else add_conversation_participants NEW (d\<lparr>conversations := conversations d @ [NEW]\<rparr>))"

section \<open>Schema constraints as predicates on a database\<close>

text \<open>
  The primary key of \<^verbatim>\<open>profiles\<close>, the primary key of \<^verbatim>\<open>conversations\<close>, the foreign keys
  of \<^verbatim>\<open>conversations\<close> into \<^verbatim>\<open>profiles\<close>, and the foreign key of
  \<^verbatim>\<open>conversation_participants\<close> into \<^verbatim>\<open>conversations\<close>.
\<close>

definition pk_profiles :: "db \<Rightarrow> bool" where
  "pk_profiles d = distinct (map p_id (profiles d))"

definition pk_conversations :: "db \<Rightarrow> bool" where
  "pk_conversations d = distinct (map c_id (conversations d))"

definition fk_conversations_profiles :: "db \<Rightarrow> bool" where
  "fk_conversations_profiles d =
     (\<forall>c \<in> set (conversations d).
        (\<exists>p \<in> set (profiles d). p_id p = c_client_id c)
        \<and> (\<exists>p \<in> set (profiles d). p_id p = c_mentor_id c))"

definition fk_participants_conversations :: "db \<Rightarrow> bool" where
  "fk_participants_conversations d =
     (\<forall>cp \<in> set (conversation_participants d).
        \<exists>c \<in> set (conversations d). c_id c = cp_conversation_id cp)"

section \<open>Ground-truth membership against the materialized rows\<close>

text \<open>
  The specification's contract of the hierarchy resolver, in its words: a principal is a
  member of a conversation iff it equals the conversation's client, or equals the
  conversation's mentor, or is the training director that the director reference of the
  conversation's mentor points to. The director is identified by that reference.
\<close>

definition isMember_spec :: "db \<Rightarrow> uuid \<Rightarrow> conversation \<Rightarrow> bool" where
  "isMember_spec d P C =
     (P = c_client_id C \<or> P = c_mentor_id C
      \<or> (\<exists>m \<in> set (profiles d). p_id m = c_mentor_id C \<and> p_director_id m = Some P))"

section \<open>Read policies\<close>

text \<open>
  A subquery inside a policy runs with the requester's rights, so it reads the rows of
  its table that the table's own SELECT policy lets the requester see. The helper
  \<^verbatim>\<open>is_conversation_member\<close> is SECURITY DEFINER and reads the whole membership table.
  The policy "Users can view participants of their conversations" (FOR SELECT USING):
\<close>

definition conversation_participants_select_policy :: "db \<Rightarrow> uuid \<Rightarrow> participant \<Rightarrow> bool" where
  "conversation_participants_select_policy d uid cp =
     is_conversation_member d uid (cp_conversation_id cp)"

definition select_conversation_participants :: "db \<Rightarrow> uuid \<Rightarrow> participant list" where
  "select_conversation_participants d uid =
     filter (conversation_participants_select_policy d uid) (conversation_participants d)"

text \<open>
  The SELECT policy on \<^verbatim>\<open>conversations\<close> as the last migration
  (\<^verbatim>\<open>20250514171534_withered_lagoon.sql\<close>) leaves it: the policy of the same name is dropped
  and created again over the membership table, so it is the only SELECT policy of the
  table. Its subquery reads \<^verbatim>\<open>conversation_participants\<close> directly, hence the rows the
  requester may see. A query returns the rows that pass.
\<close>

definition conversations_select_policy :: "db \<Rightarrow> uuid \<Rightarrow> conversation \<Rightarrow> bool" where
  "conversations_select_policy d uid c =
     (\<exists>cp \<in> set (select_conversation_participants d uid).
        cp_conversation_id cp = c_id c \<and> cp_user_id cp = uid)"

definition select_conversations :: "db \<Rightarrow> uuid \<Rightarrow> conversation list" where
  "select_conversations d uid = filter (conversations_select_policy d uid) (conversations d)"

text \<open>The policy "Conversation members can read messages" (FOR SELECT USING).\<close>

definition audio_messages_select_policy :: "db \<Rightarrow> uuid \<Rightarrow> audio_message \<Rightarrow> bool" where
  "audio_messages_select_policy d uid m = is_conversation_member d uid (m_conversation_id m)"

definition select_audio_messages :: "db \<Rightarrow> uuid \<Rightarrow> audio_message list" where
  "select_audio_messages d uid = filter (audio_messages_select_policy d uid) (audio_messages d)"

text \<open>
  The policy "Only conversation members can read audio files" on \<^verbatim>\<open>storage.objects\<close>:
  \<^verbatim>\<open>bucket_id = 'voices' AND is_conversation_member((storage.foldername(name))[1]::uuid)\<close>.
  The platform's \<^verbatim>\<open>storage.foldername\<close> (the folders of an object name) and the cast of a
  text to \<^verbatim>\<open>uuid\<close> are not code of this repository; they are the parameters \<open>foldername\<close>
  and \<open>to_uuid\<close>. Subscript 1 of an empty array is NULL, for which the membership helper
  finds no row; a text that is not a UUID makes the cast raise.
\<close>

definition storage_objects_select_policy ::
  "(string \<Rightarrow> string list) \<Rightarrow> (string \<Rightarrow> uuid option) \<Rightarrow> db \<Rightarrow> uuid \<Rightarrow> storage_object
     \<Rightarrow> pg_error + bool" where
  "storage_objects_select_policy foldername to_uuid d uid obj =
     (if o_bucket_id obj \<noteq> ''voices'' then Inr False
      else case foldername (o_name obj) of
             [] \<Rightarrow> Inr False
           | f # _ \<Rightarrow>
               (case to_uuid f of
                  None \<Rightarrow> Inl Invalid_text_representation
                | Some conv_uuid \<Rightarrow> Inr (is_conversation_member d uid conv_uuid)))"

definition can_read_object ::
  "(string \<Rightarrow> string list) \<Rightarrow> (string \<Rightarrow> uuid option) \<Rightarrow> db \<Rightarrow> uuid \<Rightarrow> storage_object
     \<Rightarrow> bool" where
  "can_read_object foldername to_uuid d uid obj =
     (storage_objects_select_policy foldername to_uuid d uid obj = Inr True)"

section \<open>Audio messages: insert and delete\<close>

text \<open>The policy "Conversation members can add messages" (FOR INSERT WITH CHECK).\<close>

definition audio_messages_insert_policy :: "db \<Rightarrow> uuid \<Rightarrow> audio_message \<Rightarrow> bool" where
  "audio_messages_insert_policy d uid NEW =
     (is_conversation_member d uid (m_conversation_id NEW) \<and> m_sender_id NEW = uid)"

text \<open>
  \<^verbatim>\<open>INSERT INTO audio_messages\<close> by requester \<open>uid\<close>: the row-level-security check, then
  the primary key and the foreign keys to \<^verbatim>\<open>conversations\<close> and \<^verbatim>\<open>profiles\<close>.
\<close>

definition insert_audio_message :: "uuid \<Rightarrow> audio_message \<Rightarrow> db \<Rightarrow> pg_error + db" where
  "insert_audio_message uid NEW d =
     (if \<not> audio_messages_insert_policy d uid NEW then Inl Insufficient_privilege
      else if \<exists>m \<in> set (audio_messages d). m_id m = m_id NEW
      then Inl (Unique_violation ''audio_messages_pkey'')
      else if \<not> (\<exists>c \<in> set (conversations d). c_id c = m_conversation_id NEW)
      then Inl (Foreign_key_violation ''audio_messages_conversation_id_fkey'')
      else if \<not> (\<exists>p \<in> set (profiles d). p_id p = m_sender_id NEW)
      then Inl (Foreign_key_violation ''audio_messages_sender_id_fkey'')
      else Inr (d\<lparr>audio_messages := audio_messages d @ [NEW]\<rparr>))"

text \<open>The policy "Senders can delete their own messages" (FOR DELETE USING).\<close>

definition audio_messages_delete_policy :: "uuid \<Rightarrow> audio_message \<Rightarrow> bool" where
  "audio_messages_delete_policy uid m = (m_sender_id m = uid)"

text \<open>
  \<^verbatim>\<open>DELETE FROM audio_messages WHERE id = mid\<close> by requester \<open>uid\<close>. The statement reads
  the column \<^verbatim>\<open>id\<close>, so the SELECT policy of the table applies to it together with the
  DELETE policy: the rows with that id that pass both go, the others stay, and no error
  is raised for a row a policy hides. The folder items of a deleted message go with it
  (ON DELETE CASCADE).
\<close>

definition delete_audio_message :: "uuid \<Rightarrow> uuid \<Rightarrow> db \<Rightarrow> db" where
  "delete_audio_message uid mid d =
     (let deleted = filter (\<lambda>m. m_id m = mid \<and> audio_messages_select_policy d uid m
                                \<and> audio_messages_delete_policy uid m)
                      (audio_messages d)
      in d\<lparr>audio_messages :=
             filter (\<lambda>m. \<not> (m_id m = mid \<and> audio_messages_select_policy d uid m
                            \<and> audio_messages_delete_policy uid m))
               (audio_messages d),
           folder_items :=
             filter (\<lambda>fi. fi_message_id fi \<notin> set (map m_id deleted)) (folder_items d)\<rparr>)"

section \<open>Folder items\<close>

text \<open>The policy "Users can manage their own folders" (FOR ALL USING).\<close>

definition folders_policy :: "uuid \<Rightarrow> folder \<Rightarrow> bool" where
  "folders_policy uid f = (f_owner_id f = uid)"

definition select_folders :: "db \<Rightarrow> uuid \<Rightarrow> folder list" where
  "select_folders d uid = filter (folders_policy uid) (folders d)"

text \<open>
  The policy "Users can manage items in their folders" is FOR ALL; an INSERT is checked
  against its WITH CHECK expression. Its subqueries read \<^verbatim>\<open>folders\<close> and
  \<^verbatim>\<open>audio_messages\<close> as the requester sees them. In the second subquery \<^verbatim>\<open>message_id\<close> is
  the new item's column, since \<^verbatim>\<open>audio_messages\<close> has none of that name.
\<close>

definition folder_items_insert_policy :: "db \<Rightarrow> uuid \<Rightarrow> folder_item \<Rightarrow> bool" where
  "folder_items_insert_policy d uid NEW =
     (fi_folder_id NEW \<in> set (map f_id (filter (\<lambda>f. f_owner_id f = uid) (select_folders d uid)))
      \<and> (\<exists>m \<in> set (select_audio_messages d uid).
            m_id m = fi_message_id NEW \<and> is_conversation_member d uid (m_conversation_id m)))"

text \<open>
  \<^verbatim>\<open>INSERT INTO folder_items\<close> by requester \<open>uid\<close>: the row-level-security check, the
  primary key \<^verbatim>\<open>(folder_id, message_id)\<close>, the foreign keys to \<^verbatim>\<open>folders\<close> and
  \<^verbatim>\<open>audio_messages\<close>.
\<close>

definition insert_folder_item :: "uuid \<Rightarrow> folder_item \<Rightarrow> db \<Rightarrow> pg_error + db" where
  "insert_folder_item uid NEW d =
     (if \<not> folder_items_insert_policy d uid NEW then Inl Insufficient_privilege
      else if \<exists>x \<in> set (folder_items d).
                fi_folder_id x = fi_folder_id NEW \<and> fi_message_id x = fi_message_id NEW
      then Inl (Unique_violation ''folder_items_pkey'')
      else if \<not> (\<exists>f \<in> set (folders d). f_id f = fi_folder_id NEW)
      then Inl (Foreign_key_violation ''folder_items_folder_id_fkey'')
      else if \<not> (\<exists>m \<in> set (audio_messages d). m_id m = fi_message_id NEW)
      then Inl (Foreign_key_violation ''folder_items_message_id_fkey'')
      else Inr (d\<lparr>folder_items := folder_items d @ [NEW]\<rparr>))"

text \<open>The primary keys of \<^verbatim>\<open>folders\<close> and \<^verbatim>\<open>audio_messages\<close>.\<close>

definition pk_folders :: "db \<Rightarrow> bool" where
  "pk_folders d = distinct (map f_id (folders d))"

definition pk_audio_messages :: "db \<Rightarrow> bool" where
  "pk_audio_messages d = distinct (map m_id (audio_messages d))"

section \<open>Role matching of a conversation's references\<close>

text \<open>
  The role of the profile a reference resolves to, and the invariant the specification
  states for a conversation row: the client reference resolves to a client and the
  mentor reference to a mentor.
\<close>

definition role_of :: "db \<Rightarrow> uuid \<Rightarrow> role option" where
  "role_of d pid = map_option p_role (find (\<lambda>p. p_id p = pid) (profiles d))"

definition conversation_roles_match :: "db \<Rightarrow> conversation \<Rightarrow> bool" where
  "conversation_roles_match d c =
     (role_of d (c_client_id c) = Some Client \<and> role_of d (c_mentor_id c) = Some Mentor)"

text \<open>
  The owner of the folder a reference resolves to, and the conversation of the message a
  reference resolves to.
\<close>

definition folder_owner :: "db \<Rightarrow> uuid \<Rightarrow> uuid option" where
  "folder_owner d fid = map_option f_owner_id (find (\<lambda>f. f_id f = fid) (folders d))"

definition message_conversation :: "db \<Rightarrow> uuid \<Rightarrow> uuid option" where
  "message_conversation d mid =
     map_option m_conversation_id (find (\<lambda>m. m_id m = mid) (audio_messages d))"

section \<open>The backfill migration\<close>

text \<open>
  \<^verbatim>\<open>20250514021629_restless_bush.sql\<close> runs three \<^verbatim>\<open>INSERT ... SELECT\<close> statements over
  the membership table. A statement inserts its rows one after the other and aborts at
  the first row that raises.
\<close>

fun insert_rows ::
  "(participant \<Rightarrow> db \<Rightarrow> pg_error + db) \<Rightarrow> participant list \<Rightarrow> db \<Rightarrow> pg_error + db" where
  "insert_rows ins [] d = Inr d"
| "insert_rows ins (r # rs) d =
     (case ins r d of Inl e \<Rightarrow> Inl e | Inr d' \<Rightarrow> insert_rows ins rs d')"

text \<open>
  An insert with \<^verbatim>\<open>ON CONFLICT (conversation_id, user_id) DO NOTHING\<close>: a row whose key is
  taken is skipped.
\<close>

definition insert_conversation_participant_do_nothing ::
  "participant \<Rightarrow> db \<Rightarrow> pg_error + db" where
  "insert_conversation_participant_do_nothing cp d =
     (if \<exists>x \<in> set (conversation_participants d).
           cp_conversation_id x = cp_conversation_id cp \<and> cp_user_id x = cp_user_id cp
      then Inr d
      else insert_conversation_participant cp d)"

text \<open>
  First statement: \<^verbatim>\<open>SELECT DISTINCT c.id, p.id, 'training_director' FROM conversations c
  JOIN profiles m ON m.id = c.mentor_id JOIN profiles p ON p.full_name = 'Greg Bottaro'
  WHERE m.director_id = p.id\<close>, inserted with \<^verbatim>\<open>ON CONFLICT ... DO NOTHING\<close>.
\<close>

definition backfill_director_rows :: "db \<Rightarrow> participant list" where
  "backfill_director_rows d =
     remdups
       [\<lparr>cp_conversation_id = c_id c, cp_user_id = p_id p, cp_role = Training_director\<rparr>.
          c \<leftarrow> conversations d, m \<leftarrow> profiles d, p_id m = c_mentor_id c,
          p \<leftarrow> profiles d, p_full_name p = ''Greg Bottaro'', p_director_id m = Some (p_id p)]"

definition backfill_directors :: "db \<Rightarrow> pg_error + db" where
  "backfill_directors d =
     insert_rows insert_conversation_participant_do_nothing (backfill_director_rows d) d"

text \<open>
  Second and third statement: \<^verbatim>\<open>SELECT c.id, c.client_id, 'client' FROM conversations c
  WHERE NOT EXISTS (SELECT 1 FROM conversation_participants cp WHERE cp.conversation_id =
  c.id AND cp.user_id = c.client_id)\<close>, and the same for the mentor, inserted with no
  conflict clause. The subquery reads the table as it is before the statement.
\<close>

definition backfill_client_rows :: "db \<Rightarrow> participant list" where
  "backfill_client_rows d =
     [\<lparr>cp_conversation_id = c_id c, cp_user_id = c_client_id c, cp_role = Client\<rparr>.
        c \<leftarrow> conversations d,
        \<not> (\<exists>cp \<in> set (conversation_participants d).
              cp_conversation_id cp = c_id c \<and> cp_user_id cp = c_client_id c)]"

definition backfill_clients :: "db \<Rightarrow> pg_error + db" where
  "backfill_clients d = insert_rows insert_conversation_participant (backfill_client_rows d) d"

definition backfill_mentor_rows :: "db \<Rightarrow> participant list" where
  "backfill_mentor_rows d =
     [\<lparr>cp_conversation_id = c_id c, cp_user_id = c_mentor_id c, cp_role = Mentor\<rparr>.
        c \<leftarrow> conversations d,
        \<not> (\<exists>cp \<in> set (conversation_participants d).
              cp_conversation_id cp = c_id c \<and> cp_user_id cp = c_mentor_id c)]"

definition backfill_mentors :: "db \<Rightarrow> pg_error + db" where
  "backfill_mentors d = insert_rows insert_conversation_participant (backfill_mentor_rows d) d"

definition restless_bush :: "db \<Rightarrow> pg_error + db" where
  "restless_bush d =
     (case backfill_directors d of
        Inl e \<Rightarrow> Inl e
      | Inr d1 \<Rightarrow>
          (case backfill_clients d1 of
             Inl e \<Rightarrow> Inl e
           | Inr d2 \<Rightarrow> backfill_mentors d2))"

section \<open>The client-side audio recorder\<close>

text \<open>
  The component \<^verbatim>\<open>AudioRecorder\<close> of \<^verbatim>\<open>src/components/conversations/AudioRecorder.tsx\<close>:
  its state and refs as a record, its handlers and its effect as functions on it.
  \<open>audioBlob\<close> says whether a blob is held. \<open>mediaRecorder\<close> is \<open>None\<close> while the ref is
  null, \<open>Some True\<close> while the MediaRecorder is recording and \<open>Some False\<close> once it is
  stopped. \<open>timerRef\<close> says whether the ref holds an interval id, and \<open>intervalActive\<close>
  whether the browser still has that interval registered: \<^verbatim>\<open>clearInterval\<close> ends the
  interval and leaves the id in the ref. Times are \<^verbatim>\<open>Date.now()\<close> in milliseconds, passed
  in by the event.
\<close>

record recorder =
  isRecording :: bool
  recordingTime :: int
  audioBlob :: bool
  mediaRecorder :: "bool option"
  timerRef :: bool
  intervalActive :: bool
  startTimeRef :: int

definition recorder_initial :: recorder where
  "recorder_initial = \<lparr>isRecording = False, recordingTime = 0, audioBlob = False,
                        mediaRecorder = None, timerRef = False, intervalActive = False,
                        startTimeRef = 0\<rparr>"

text \<open>
  \<^verbatim>\<open>updateTimer\<close>: returns at once while the start time is 0, else sets the recording time
  to the whole seconds elapsed. It does nothing else.
\<close>

definition updateTimer :: "int \<Rightarrow> recorder \<Rightarrow> recorder" where
  "updateTimer now r =
     (if startTimeRef r = 0 then r
      else r\<lparr>recordingTime := (now - startTimeRef r) div 1000\<rparr>)"

text \<open>
  \<^verbatim>\<open>mediaRecorder.stop()\<close>: a recording MediaRecorder becomes inactive and its
  \<^verbatim>\<open>onstop\<close> stores the blob; on an inactive one the call throws and nothing changes.
\<close>

definition mediaRecorder_stop :: "recorder \<Rightarrow> recorder" where
  "mediaRecorder_stop r =
     (if mediaRecorder r = Some True then r\<lparr>mediaRecorder := Some False, audioBlob := True\<rparr>
      else r)"

text \<open>
  \<^verbatim>\<open>startRecording\<close>: when the microphone is refused the catch branch alerts and the state
  stays; otherwise a MediaRecorder is created and started, the state is set, and
  \<^verbatim>\<open>updateTimer\<close> is registered as an interval of 1000 ms. No other timer is registered.
\<close>

definition startRecording :: "bool \<Rightarrow> int \<Rightarrow> recorder \<Rightarrow> recorder" where
  "startRecording granted now r =
     (if \<not> granted then r
      else r\<lparr>mediaRecorder := Some True, isRecording := True, recordingTime := 0,
             startTimeRef := now, timerRef := True, intervalActive := True\<rparr>)"

text \<open>
  \<^verbatim>\<open>stopRecording\<close>: with a MediaRecorder and \<^verbatim>\<open>isRecording\<close> set, the recorder is stopped,
  \<^verbatim>\<open>isRecording\<close> is cleared, and an interval id in the ref is cleared and the ref set to
  null. When \<^verbatim>\<open>stop()\<close> throws, the rest of the handler does not run.
\<close>

definition stopRecording :: "recorder \<Rightarrow> recorder" where
  "stopRecording r =
     (if mediaRecorder r \<noteq> None \<and> isRecording r
      then (if mediaRecorder r = Some True
            then (let r1 = (mediaRecorder_stop r)\<lparr>isRecording := False\<rparr>
                  in if timerRef r1 then r1\<lparr>intervalActive := False, timerRef := False\<rparr>
                     else r1)
            else r)
      else r)"

text \<open>
  The cleanup of the effect \<^verbatim>\<open>useEffect(() => { return () => {...} }, [isRecording])\<close>.
  It reads \<^verbatim>\<open>isRecording\<close> from the render that created it, the argument \<open>rendered\<close>:
  an interval id in the ref is cleared (the ref keeps the id), and the MediaRecorder is
  stopped when there is one and \<open>rendered\<close> is true.
\<close>

definition effect_cleanup :: "bool \<Rightarrow> recorder \<Rightarrow> recorder" where
  "effect_cleanup rendered r =
     (let r1 = (if timerRef r then r\<lparr>intervalActive := False\<rparr> else r)
      in if mediaRecorder r1 \<noteq> None \<and> rendered then mediaRecorder_stop r1 else r1)"

text \<open>
  After a handler has run, the component renders again with the state the handler set.
  The effect depends on \<^verbatim>\<open>isRecording\<close>: when that value differs from the one of the
  previous render, \<open>rendered\<close>, the previous render's cleanup runs.
\<close>

definition rerender :: "bool \<Rightarrow> recorder \<Rightarrow> recorder" where
  "rerender rendered r = (if isRecording r \<noteq> rendered then effect_cleanup rendered r else r)"

text \<open>
  What can happen to the component: a click on the microphone button (with the
  permission's outcome and the clock), the browser serving its timers at a clock value
  (the interval's callback runs only while the interval is registered), a click on the
  stop button, and the component being unmounted (the last cleanup runs). A handler
  reads \<^verbatim>\<open>isRecording\<close> of the current render, and the render that follows it is part of
  the step.
\<close>

datatype recorder_event = Click_start bool int | Timers_served int | Click_stop | Unmount

fun recorder_step :: "recorder_event \<Rightarrow> recorder \<Rightarrow> recorder" where
  "recorder_step (Click_start granted now) r =
     rerender (isRecording r) (startRecording granted now r)"
| "recorder_step (Timers_served now) r =
     (if intervalActive r then rerender (isRecording r) (updateTimer now r) else r)"
| "recorder_step Click_stop r = rerender (isRecording r) (stopRecording r)"
| "recorder_step Unmount r = effect_cleanup (isRecording r) r"

fun recorder_run :: "recorder_event list \<Rightarrow> recorder \<Rightarrow> recorder" where
  "recorder_run [] r = r"
| "recorder_run (e # es) r = recorder_run es (recorder_step e r)"

section \<open>Example data\<close>

text \<open>A small database used to exercise the theorems: a director, a mentor, a client.\<close>

definition director1 :: profile where
  "director1 = \<lparr>p_id = 1, p_role = Training_director, p_mentor_id = None,
                p_director_id = None, p_full_name = ''Greg Bottaro''\<rparr>"

definition mentor2 :: profile where
  "mentor2 = \<lparr>p_id = 2, p_role = Mentor, p_mentor_id = None,
              p_director_id = Some 1, p_full_name = ''Mentor Two''\<rparr>"

definition client3 :: profile where
  "client3 = \<lparr>p_id = 3, p_role = Client, p_mentor_id = Some 2,
              p_director_id = None, p_full_name = ''Client Three''\<rparr>"

definition mentor4 :: profile where
  "mentor4 = \<lparr>p_id = 4, p_role = Mentor, p_mentor_id = None,
              p_director_id = None, p_full_name = ''Mentor Four''\<rparr>"

definition db0 :: db where
  "db0 = \<lparr>profiles = [director1, mentor2, client3, mentor4], conversations = [],
          conversation_participants = [], audio_messages = [], folders = [],
          folder_items = [], storage_objects = []\<rparr>"

definition conv10 :: conversation where
  "conv10 = \<lparr>c_id = 10, c_client_id = 3, c_mentor_id = 2\<rparr>"

definition conv_self :: conversation where
  "conv_self = \<lparr>c_id = 12, c_client_id = 2, c_mentor_id = 2\<rparr>"


text \<open>The same database after the client has opened conversation 10 and sent a message.\<close>

definition msg20 :: audio_message where
  "msg20 = \<lparr>m_id = 20, m_conversation_id = 10, m_sender_id = 3, m_audio_url = ''10/20.mp3'',
            m_duration = 12, m_text_transcript = None\<rparr>"

definition obj20 :: storage_object where
  "obj20 = \<lparr>o_bucket_id = ''voices'', o_name = ''10/20.mp3'', o_owner = Some 3\<rparr>"

definition db1 :: db where
  "db1 = \<lparr>profiles = [director1, mentor2, client3, mentor4], conversations = [conv10],
          conversation_participants =
            [\<lparr>cp_conversation_id = 10, cp_user_id = 3, cp_role = Client\<rparr>,
             \<lparr>cp_conversation_id = 10, cp_user_id = 2, cp_role = Mentor\<rparr>,
             \<lparr>cp_conversation_id = 10, cp_user_id = 1, cp_role = Training_director\<rparr>],
          audio_messages = [msg20],
          folders = [\<lparr>f_id = 30, f_owner_id = 3, f_name = ''Important Messages''\<rparr>,
                     \<lparr>f_id = 31, f_owner_id = 4, f_name = ''Important Messages''\<rparr>],
          folder_items = [], storage_objects = [obj20]\<rparr>"

definition item30 :: folder_item where
  "item30 = \<lparr>fi_folder_id = 30, fi_message_id = 20\<rparr>"

definition db2 :: db where
  "db2 = db1\<lparr>folder_items := [item30]\<rparr>"

text \<open>
  An instance of the platform's helpers for the examples: the folders of an object name
  are its segments between slashes without the last one, and the one text that reads as
  a UUID is the name of conversation 10.
\<close>

fun split_slash :: "string \<Rightarrow> string list" where
  "split_slash [] = [[]]"
| "split_slash (c # cs) =
     (if c = CHR ''/'' then [] # split_slash cs
      else (case split_slash cs of [] \<Rightarrow> [[c]] | w # ws \<Rightarrow> (c # w) # ws))"

definition foldername_example :: "string \<Rightarrow> string list" where
  "foldername_example n = butlast (split_slash n)"

definition to_uuid_example :: "string \<Rightarrow> uuid option" where
  "to_uuid_example s = (if s = ''10'' then Some 10 else None)"

text \<open>A mentor opens a conversation with another mentor in the client position.\<close>

definition conv11 :: conversation where
  "conv11 = \<lparr>c_id = 11, c_client_id = 4, c_mentor_id = 2\<rparr>"

definition db11 :: db where
  "db11 = db0\<lparr>conversations := [conv11],
              conversation_participants :=
                [\<lparr>cp_conversation_id = 11, cp_user_id = 4, cp_role = Client\<rparr>,
                 \<lparr>cp_conversation_id = 11, cp_user_id = 2, cp_role = Mentor\<rparr>,
                 \<lparr>cp_conversation_id = 11, cp_user_id = 1, cp_role = Training_director\<rparr>]\<rparr>"

text \<open>A conversation whose client is the director of its mentor.\<close>

definition conv13 :: conversation where
  "conv13 = \<lparr>c_id = 13, c_client_id = 1, c_mentor_id = 2\<rparr>"

text \<open>Conversation 10 as it was before the trigger existed: no membership rows.\<close>

definition db_old :: db where
  "db_old = db1\<lparr>conversation_participants := []\<rparr>"
section \<open>Helper lemmas\<close>

lemma find_unique_profile:
  assumes "distinct (map p_id ps)" and "m \<in> set ps"
  shows "find (\<lambda>p. p_id p = p_id m) ps = Some m"
  using assms
proof (induction ps)
  case Nil
  then show ?case by simp
next
  case (Cons a ps)
  then show ?case by (cases "a = m") force+
qed

lemma select_director_id_unique:
  assumes "pk_profiles d" and "m \<in> set (profiles d)" and "p_id m = mid"
  shows "select_director_id d mid = p_director_id m"
  using find_unique_profile [of "profiles d" m] assms
  by (simp add: select_director_id_def pk_profiles_def)

lemma insert_conversation_participant_Inr:
  assumes "insert_conversation_participant cp d = Inr d'"
  shows "d' = d\<lparr>conversation_participants := conversation_participants d @ [cp]\<rparr>"
    and "\<not> (\<exists>x \<in> set (conversation_participants d).
              cp_conversation_id x = cp_conversation_id cp \<and> cp_user_id x = cp_user_id cp)"
  using assms by (auto simp: insert_conversation_participant_def split: if_splits)

lemma add_conversation_participants_Inr:
  assumes "add_conversation_participants NEW d = Inr d'"
  shows "d' = d\<lparr>conversation_participants := conversation_participants d @
            [\<lparr>cp_conversation_id = c_id NEW, cp_user_id = c_client_id NEW, cp_role = Client\<rparr>,
             \<lparr>cp_conversation_id = c_id NEW, cp_user_id = c_mentor_id NEW, cp_role = Mentor\<rparr>] @
            (case select_director_id d (c_mentor_id NEW) of
               None \<Rightarrow> []
             | Some dir \<Rightarrow> [\<lparr>cp_conversation_id = c_id NEW, cp_user_id = dir,
                             cp_role = Training_director\<rparr>])\<rparr>"
  using assms
  by (auto simp: add_conversation_participants_def Let_def
           dest!: insert_conversation_participant_Inr(1)
           split: sum.splits option.splits)

lemma insert_conversation_Inr:
  assumes "insert_conversation uid NEW d = Inr d'"
  shows "d' = d\<lparr>conversations := conversations d @ [NEW],
               conversation_participants := conversation_participants d @
            [\<lparr>cp_conversation_id = c_id NEW, cp_user_id = c_client_id NEW, cp_role = Client\<rparr>,
             \<lparr>cp_conversation_id = c_id NEW, cp_user_id = c_mentor_id NEW, cp_role = Mentor\<rparr>] @
            (case select_director_id d (c_mentor_id NEW) of
               None \<Rightarrow> []
             | Some dir \<Rightarrow> [\<lparr>cp_conversation_id = c_id NEW, cp_user_id = dir,
                             cp_role = Training_director\<rparr>])\<rparr>"
    and "\<not> (\<exists>c \<in> set (conversations d). c_id c = c_id NEW)"
    and "conversations_insert_policy d uid NEW"
    and "\<exists>p \<in> set (profiles d). p_id p = c_client_id NEW"
    and "\<exists>p \<in> set (profiles d). p_id p = c_mentor_id NEW"
  using assms
  by (auto simp: insert_conversation_def select_director_id_def
           dest!: add_conversation_participants_Inr
           split: if_splits)

lemma no_rows_for_fresh_conversation:
  assumes "fk_participants_conversations d"
    and "\<not> (\<exists>c \<in> set (conversations d). c_id c = cid)"
  shows "filter (\<lambda>cp. cp_conversation_id cp = cid) (conversation_participants d) = []"
  using assms by (auto simp: fk_participants_conversations_def filter_empty_conv)

section \<open>Materialized membership after creation\<close>

text \<open>
  C1. When a conversation is created (the insert succeeds) on a database that satisfies
  the foreign key of the membership table, the membership rows of the new conversation
  are exactly: the client with role client, the mentor with role mentor, and, if and only
  if the mentor's profile has a non-null director reference, that director with role
  training_director. The rows are given as a list, so each occurs once and there is no
  other row.
\<close>

theorem materialized_rows_after_creation:
  assumes "pk_profiles d"
    and "fk_participants_conversations d"
    and "insert_conversation uid NEW d = Inr d'"
    and "m \<in> set (profiles d)"
    and "p_id m = c_mentor_id NEW"
  shows "filter (\<lambda>cp. cp_conversation_id cp = c_id NEW) (conversation_participants d') =
           [\<lparr>cp_conversation_id = c_id NEW, cp_user_id = c_client_id NEW, cp_role = Client\<rparr>,
            \<lparr>cp_conversation_id = c_id NEW, cp_user_id = c_mentor_id NEW, cp_role = Mentor\<rparr>] @
           (case p_director_id m of
              None \<Rightarrow> []
            | Some dir \<Rightarrow> [\<lparr>cp_conversation_id = c_id NEW, cp_user_id = dir,
                            cp_role = Training_director\<rparr>])"
proof -
  have fresh: "filter (\<lambda>cp. cp_conversation_id cp = c_id NEW) (conversation_participants d) = []"
    using no_rows_for_fresh_conversation [OF assms(2)] insert_conversation_Inr(2) [OF assms(3)]
    by blast
  have dir: "select_director_id d (c_mentor_id NEW) = p_director_id m"
    using select_director_id_unique [OF assms(1) assms(4) assms(5)] .
  show ?thesis
    using fresh dir insert_conversation_Inr(1) [OF assms(3)]
    by (simp split: option.splits)
qed

theorem materialized_rows_after_creation_witness:
  "pk_profiles db0 \<and> fk_participants_conversations db0
   \<and> (\<exists>d'. insert_conversation 3 conv10 db0 = Inr d'
        \<and> filter (\<lambda>cp. cp_conversation_id cp = 10) (conversation_participants d') =
           [\<lparr>cp_conversation_id = 10, cp_user_id = 3, cp_role = Client\<rparr>,
            \<lparr>cp_conversation_id = 10, cp_user_id = 2, cp_role = Mentor\<rparr>,
            \<lparr>cp_conversation_id = 10, cp_user_id = 1, cp_role = Training_director\<rparr>])"
proof -
  have pk: "pk_profiles db0"
    by (simp add: pk_profiles_def db0_def director1_def mentor2_def client3_def mentor4_def)
  have fk: "fk_participants_conversations db0"
    by (simp add: fk_participants_conversations_def db0_def)
  obtain d' where ins: "insert_conversation 3 conv10 db0 = Inr d'"
    by (simp add: insert_conversation_def conversations_insert_policy_def
        add_conversation_participants_def insert_conversation_participant_def
        select_director_id_def db0_def conv10_def director1_def mentor2_def client3_def
        mentor4_def)
  have m: "mentor2 \<in> set (profiles db0)" by (simp add: db0_def)
  have mid: "p_id mentor2 = c_mentor_id conv10" by (simp add: mentor2_def conv10_def)
  show ?thesis
    using pk fk ins materialized_rows_after_creation [OF pk fk ins m mid]
    by (simp add: conv10_def mentor2_def)
qed

section \<open>Ground-truth membership at creation\<close>

lemma profile_unique:
  assumes "pk_profiles d" and "m \<in> set (profiles d)" and "m' \<in> set (profiles d)"
    and "p_id m = p_id m'"
  shows "m = m'"
  using assms by (auto simp: pk_profiles_def distinct_map dest: inj_onD)

lemma member_after_creation:
  assumes "fk_participants_conversations d"
    and "insert_conversation uid C d = Inr d'"
  shows "is_conversation_member d' P (c_id C) \<longleftrightarrow>
           (P = c_client_id C \<or> P = c_mentor_id C
            \<or> select_director_id d (c_mentor_id C) = Some P)"
proof -
  have fresh: "\<forall>cp \<in> set (conversation_participants d). cp_conversation_id cp \<noteq> c_id C"
    using assms(1) insert_conversation_Inr(2) [OF assms(2)]
    by (auto simp: fk_participants_conversations_def)
  show ?thesis
    using fresh insert_conversation_Inr(1) [OF assms(2)]
    by (auto simp: is_conversation_member_def split: option.splits)
qed

text \<open>
  C2. At the moment a conversation is created (the insert succeeds, on a database that
  satisfies the primary key of profiles and the foreign key of the membership table), a
  principal satisfies the ground-truth predicate of the specification iff it has a
  materialized membership row for the conversation.
\<close>

theorem ground_truth_agrees_at_creation:
  assumes "pk_profiles d"
    and "fk_participants_conversations d"
    and "insert_conversation uid C d = Inr d'"
  shows "isMember_spec d' P C \<longleftrightarrow> is_conversation_member d' P (c_id C)"
proof -
  obtain m where m: "m \<in> set (profiles d)" "p_id m = c_mentor_id C"
    using insert_conversation_Inr(5) [OF assms(3)] by blast
  have dir: "select_director_id d (c_mentor_id C) = p_director_id m"
    using select_director_id_unique [OF assms(1) m] .
  have same: "profiles d' = profiles d"
    using insert_conversation_Inr(1) [OF assms(3)] by simp
  have "(\<exists>m' \<in> set (profiles d). p_id m' = c_mentor_id C \<and> p_director_id m' = Some P)
          \<longleftrightarrow> p_director_id m = Some P"
    using m profile_unique [OF assms(1) m(1)] by metis
  then show ?thesis
    using member_after_creation [OF assms(2) assms(3), of P] dir same
    by (simp add: isMember_spec_def)
qed

theorem ground_truth_agrees_at_creation_witness:
  "pk_profiles db0 \<and> fk_participants_conversations db0
   \<and> (\<exists>d'. insert_conversation 3 conv10 db0 = Inr d'
        \<and> isMember_spec d' 1 conv10 \<and> is_conversation_member d' 1 (c_id conv10)
        \<and> \<not> isMember_spec d' 4 conv10 \<and> \<not> is_conversation_member d' 4 (c_id conv10))"
proof -
  have pk: "pk_profiles db0"
    by (simp add: pk_profiles_def db0_def director1_def mentor2_def client3_def mentor4_def)
  have fk: "fk_participants_conversations db0"
    by (simp add: fk_participants_conversations_def db0_def)
  obtain d' where ins: "insert_conversation 3 conv10 db0 = Inr d'"
    by (simp add: insert_conversation_def conversations_insert_policy_def
        add_conversation_participants_def insert_conversation_participant_def
        select_director_id_def db0_def conv10_def director1_def mentor2_def client3_def
        mentor4_def)
  have prof: "profiles d' = profiles db0"
    using insert_conversation_Inr(1) [OF ins] by simp
  have yes: "isMember_spec d' 1 conv10"
    by (simp add: isMember_spec_def prof db0_def conv10_def director1_def mentor2_def
        client3_def mentor4_def)
  have no: "\<not> isMember_spec d' 4 conv10"
    by (simp add: isMember_spec_def prof db0_def conv10_def director1_def mentor2_def
        client3_def mentor4_def)
  show ?thesis
    using pk fk ins yes no
      ground_truth_agrees_at_creation [OF pk fk ins, of 1]
      ground_truth_agrees_at_creation [OF pk fk ins, of 4]
    by blast
qed

section \<open>Creation with the same principal as client and mentor\<close>

text \<open>
  C10. A conversation insert whose client reference equals its mentor reference fails as
  a whole: the statement raises and the database is what it was before, so neither the
  conversation row nor any membership row is persisted. Whenever the trigger's first
  insert (the client row) goes through, its second insert (the mentor row) raises the
  unique violation of the membership table's primary key; and when the row itself passes
  the policy, the primary key and the foreign keys of conversations, that unique
  violation is the error of the statement.
\<close>

theorem same_principal_creation_fails:
  assumes "c_client_id NEW = c_mentor_id NEW"
  shows "(\<exists>e. run (insert_conversation uid NEW) d = (d, Some e))
    \<and> (\<forall>d1 d2.
         insert_conversation_participant
           \<lparr>cp_conversation_id = c_id NEW, cp_user_id = c_client_id NEW, cp_role = Client\<rparr> d1
           = Inr d2 \<longrightarrow>
         insert_conversation_participant
           \<lparr>cp_conversation_id = c_id NEW, cp_user_id = c_mentor_id NEW, cp_role = Mentor\<rparr> d2
           = Inl (Unique_violation ''conversation_participants_pkey''))
    \<and> (conversations_insert_policy d uid NEW
         \<and> \<not> (\<exists>c \<in> set (conversations d). c_id c = c_id NEW)
         \<and> (\<exists>p \<in> set (profiles d). p_id p = c_client_id NEW)
         \<and> fk_participants_conversations d \<longrightarrow>
         insert_conversation uid NEW d
           = Inl (Unique_violation ''conversation_participants_pkey''))"
proof -
  have second: "insert_conversation_participant
           \<lparr>cp_conversation_id = c_id NEW, cp_user_id = c_mentor_id NEW, cp_role = Mentor\<rparr> d2
           = Inl (Unique_violation ''conversation_participants_pkey'')"
    if "insert_conversation_participant
           \<lparr>cp_conversation_id = c_id NEW, cp_user_id = c_client_id NEW, cp_role = Client\<rparr> d1
           = Inr d2" for d1 d2
    using insert_conversation_participant_Inr(1) [OF that] assms
    by (simp add: insert_conversation_participant_def)
  have trig: "\<exists>e. add_conversation_participants NEW d0 = Inl e" for d0
    using second [of d0]
    by (auto simp: add_conversation_participants_def Let_def split: sum.splits)
  have fails: "\<exists>e. insert_conversation uid NEW d = Inl e"
    using trig [of "d\<lparr>conversations := conversations d @ [NEW]\<rparr>"]
    by (auto simp: insert_conversation_def)
  have precise: "insert_conversation uid NEW d
           = Inl (Unique_violation ''conversation_participants_pkey'')"
    if "conversations_insert_policy d uid NEW"
      and "\<not> (\<exists>c \<in> set (conversations d). c_id c = c_id NEW)"
      and "\<exists>p \<in> set (profiles d). p_id p = c_client_id NEW"
      and "fk_participants_conversations d"
  proof -
    have "\<forall>cp \<in> set (conversation_participants d). cp_conversation_id cp \<noteq> c_id NEW"
      using that(2,4) by (auto simp: fk_participants_conversations_def)
    then show ?thesis
      using that(1,2,3) assms
      by (auto simp: insert_conversation_def add_conversation_participants_def Let_def
          insert_conversation_participant_def)
  qed
  from fails have "\<exists>e. run (insert_conversation uid NEW) d = (d, Some e)"
    by (auto simp: run_def)
  with second precise show ?thesis by blast
qed

theorem same_principal_creation_fails_witness:
  "c_client_id conv_self = c_mentor_id conv_self
   \<and> run (insert_conversation 2 conv_self) db0
       = (db0, Some (Unique_violation ''conversation_participants_pkey''))"
proof -
  have eq: "c_client_id conv_self = c_mentor_id conv_self"
    by (simp add: conv_self_def)
  have pre: "conversations_insert_policy db0 2 conv_self
         \<and> \<not> (\<exists>c \<in> set (conversations db0). c_id c = c_id conv_self)
         \<and> (\<exists>p \<in> set (profiles db0). p_id p = c_client_id conv_self)
         \<and> fk_participants_conversations db0"
    by (simp add: conversations_insert_policy_def fk_participants_conversations_def
        db0_def conv_self_def director1_def mentor2_def client3_def mentor4_def)
  show ?thesis
    using eq pre same_principal_creation_fails [OF eq, of 2 db0]
    by (simp add: run_def)
qed

section \<open>Read access\<close>

lemmas example_defs =
  db0_def db1_def director1_def mentor2_def client3_def mentor4_def conv10_def
  msg20_def obj20_def

text \<open>
  C3. A requester reads a conversation row iff a membership row links the requester to
  it. A requester with no membership row for a conversation gets none of its audio
  messages from a query, and is denied every stored object whose first folder is that
  conversation's identifier: the read policy never yields true for it.
\<close>

theorem read_requires_membership:
  "(c \<in> set (select_conversations d uid) \<longleftrightarrow>
      c \<in> set (conversations d)
      \<and> (\<exists>cp \<in> set (conversation_participants d).
            cp_conversation_id cp = c_id c \<and> cp_user_id cp = uid))
   \<and> (\<not> (\<exists>cp \<in> set (conversation_participants d).
            cp_conversation_id cp = cid \<and> cp_user_id cp = uid) \<longrightarrow>
        (\<forall>m \<in> set (select_audio_messages d uid). m_conversation_id m \<noteq> cid)
        \<and> (\<forall>obj f fs. foldername (o_name obj) = f # fs \<and> to_uuid f = Some cid \<longrightarrow>
              \<not> can_read_object foldername to_uuid d uid obj))"
proof -
  have conv: "c \<in> set (select_conversations d uid) \<longleftrightarrow>
      c \<in> set (conversations d)
      \<and> (\<exists>cp \<in> set (conversation_participants d).
            cp_conversation_id cp = c_id c \<and> cp_user_id cp = uid)"
    by (auto simp: select_conversations_def conversations_select_policy_def
        select_conversation_participants_def conversation_participants_select_policy_def
        is_conversation_member_def)
  have msgs: "\<forall>m \<in> set (select_audio_messages d uid). m_conversation_id m \<noteq> cid"
    if "\<not> is_conversation_member d uid cid"
    using that by (auto simp: select_audio_messages_def audio_messages_select_policy_def)
  have objs: "\<not> can_read_object foldername to_uuid d uid obj"
    if "\<not> is_conversation_member d uid cid" "foldername (o_name obj) = f # fs"
      "to_uuid f = Some cid" for obj f fs
    using that by (simp add: can_read_object_def storage_objects_select_policy_def)
  show ?thesis
    using conv msgs objs unfolding is_conversation_member_def by blast
qed

theorem read_requires_membership_witness:
  "conv10 \<in> set (select_conversations db1 3)
   \<and> conv10 \<notin> set (select_conversations db1 4)
   \<and> msg20 \<notin> set (select_audio_messages db1 4)
   \<and> \<not> can_read_object foldername_example to_uuid_example db1 4 obj20"
proof -
  have in_db: "conv10 \<in> set (conversations db1)"
    by (simp add: db1_def)
  have yes: "\<exists>cp \<in> set (conversation_participants db1).
               cp_conversation_id cp = c_id conv10 \<and> cp_user_id cp = 3"
    by (simp add: example_defs)
  have no: "\<not> (\<exists>cp \<in> set (conversation_participants db1).
               cp_conversation_id cp = c_id conv10 \<and> cp_user_id cp = 4)"
    by (simp add: example_defs)
  have path: "foldername_example (o_name obj20) = ''10'' # []"
    "to_uuid_example ''10'' = Some (c_id conv10)"
    by (simp_all add: foldername_example_def to_uuid_example_def obj20_def conv10_def)
  have conv: "m_conversation_id msg20 = c_id conv10"
    by (simp add: msg20_def conv10_def)
  show ?thesis
    using in_db yes no path conv
      read_requires_membership [of conv10 db1 3 "c_id conv10" foldername_example to_uuid_example]
      read_requires_membership [of conv10 db1 4 "c_id conv10" foldername_example to_uuid_example]
    by blast
qed

section \<open>Audio messages\<close>

text \<open>
  C5. An audio message insert passes the row-level-security check iff the requester has a
  membership row for the message's conversation and the message's sender is the
  requester. An insert by a requester with no membership row is denied, and the
  database is what it was before: no row is persisted.
\<close>

theorem message_insert_permitted_iff:
  "(insert_audio_message uid NEW d \<noteq> Inl Insufficient_privilege \<longleftrightarrow>
      (\<exists>cp \<in> set (conversation_participants d).
         cp_conversation_id cp = m_conversation_id NEW \<and> cp_user_id cp = uid)
      \<and> m_sender_id NEW = uid)
   \<and> (\<not> (\<exists>cp \<in> set (conversation_participants d).
            cp_conversation_id cp = m_conversation_id NEW \<and> cp_user_id cp = uid) \<longrightarrow>
        run (insert_audio_message uid NEW) d = (d, Some Insufficient_privilege))"
  by (simp add: insert_audio_message_def audio_messages_insert_policy_def
      is_conversation_member_def run_def)

theorem message_insert_permitted_iff_witness:
  "run (insert_audio_message 4 (msg20\<lparr>m_id := 21, m_sender_id := 4\<rparr>)) db1
     = (db1, Some Insufficient_privilege)
   \<and> insert_audio_message 3 (msg20\<lparr>m_id := 21\<rparr>) db1 \<noteq> Inl Insufficient_privilege
   \<and> insert_audio_message 2 (msg20\<lparr>m_id := 21\<rparr>) db1 = Inl Insufficient_privilege"
proof -
  have no: "\<not> (\<exists>cp \<in> set (conversation_participants db1).
      cp_conversation_id cp = m_conversation_id (msg20\<lparr>m_id := 21, m_sender_id := 4\<rparr>)
      \<and> cp_user_id cp = 4)"
    by (simp add: example_defs)
  have yes: "(\<exists>cp \<in> set (conversation_participants db1).
      cp_conversation_id cp = m_conversation_id (msg20\<lparr>m_id := 21\<rparr>) \<and> cp_user_id cp = 3)
      \<and> m_sender_id (msg20\<lparr>m_id := 21\<rparr>) = 3"
    by (simp add: example_defs)
  have other: "m_sender_id (msg20\<lparr>m_id := 21\<rparr>) \<noteq> 2"
    by (simp add: example_defs)
  show ?thesis
    using no yes other
      message_insert_permitted_iff [of 4 "msg20\<lparr>m_id := 21, m_sender_id := 4\<rparr>" db1]
      message_insert_permitted_iff [of 3 "msg20\<lparr>m_id := 21\<rparr>" db1]
      message_insert_permitted_iff [of 2 "msg20\<lparr>m_id := 21\<rparr>" db1]
    by blast
qed

text \<open>
  C6, as stated, fails for a sender with no membership row: in the database as it was
  before the backfill, the sender of message 20 deletes it and the statement removes
  nothing, because the SELECT policy hides the row from the delete.
\<close>

theorem sender_without_membership_deletes_nothing:
  "msg20 \<in> set (audio_messages db_old)
   \<and> m_sender_id msg20 = 3
   \<and> \<not> is_conversation_member db_old 3 (m_conversation_id msg20)
   \<and> delete_audio_message 3 (m_id msg20) db_old = db_old"
  by (simp add: delete_audio_message_def audio_messages_select_policy_def
      audio_messages_delete_policy_def is_conversation_member_def db_old_def example_defs)

text \<open>
  C6, amended. A delete of a stored audio message by a principal removes the message iff
  the principal is the message's sender and has a membership row for the message's
  conversation. Any principal other than the sender, a training director with a
  membership row for the message's conversation included, leaves the message in place,
  and on a database that satisfies the primary key of the messages such a delete changes
  nothing at all.
\<close>

theorem only_sender_deletes:
  assumes "M \<in> set (audio_messages d)"
  shows "(M \<notin> set (audio_messages (delete_audio_message P (m_id M) d)) \<longleftrightarrow>
            P = m_sender_id M
            \<and> (\<exists>cp \<in> set (conversation_participants d).
                  cp_conversation_id cp = m_conversation_id M \<and> cp_user_id cp = P))
    \<and> ((\<exists>cp \<in> set (conversation_participants d).
           cp_conversation_id cp = m_conversation_id M \<and> cp_user_id cp = P
           \<and> cp_role cp = Training_director)
        \<and> P \<noteq> m_sender_id M \<longrightarrow>
        M \<in> set (audio_messages (delete_audio_message P (m_id M) d)))
    \<and> (pk_audio_messages d \<and> P \<noteq> m_sender_id M \<longrightarrow>
        delete_audio_message P (m_id M) d = d)"
proof -
  have iff: "M \<notin> set (audio_messages (delete_audio_message P (m_id M) d)) \<longleftrightarrow>
            P = m_sender_id M
            \<and> (\<exists>cp \<in> set (conversation_participants d).
                  cp_conversation_id cp = m_conversation_id M \<and> cp_user_id cp = P)"
    using assms
    by (auto simp: delete_audio_message_def Let_def audio_messages_delete_policy_def
        audio_messages_select_policy_def is_conversation_member_def)
  have same: "delete_audio_message P (m_id M) d = d"
    if pk: "pk_audio_messages d" and other: "P \<noteq> m_sender_id M"
  proof -
    have uniq: "m = M" if "m \<in> set (audio_messages d)" "m_id m = m_id M" for m
      using that assms pk by (auto simp: pk_audio_messages_def distinct_map dest: inj_onD)
    have none: "filter (\<lambda>m. m_id m = m_id M \<and> audio_messages_select_policy d P m
                             \<and> audio_messages_delete_policy P m)
                  (audio_messages d) = []"
      using uniq other by (auto simp: filter_empty_conv audio_messages_delete_policy_def)
    have keep: "filter (\<lambda>m. \<not> (m_id m = m_id M \<and> audio_messages_select_policy d P m
                                \<and> audio_messages_delete_policy P m))
                  (audio_messages d) = audio_messages d"
      using uniq other by (auto simp: filter_id_conv audio_messages_delete_policy_def)
    show ?thesis
      unfolding delete_audio_message_def Let_def none keep by simp
  qed
  show ?thesis
    using iff same by blast
qed

theorem only_sender_deletes_witness:
  "msg20 \<in> set (audio_messages db1)
   \<and> msg20 \<notin> set (audio_messages (delete_audio_message 3 20 db1))
   \<and> delete_audio_message 1 20 db1 = db1
   \<and> msg20 \<in> set (audio_messages (delete_audio_message 2 20 db1))
   \<and> msg20 \<in> set (audio_messages (delete_audio_message 3 20 db_old))"
proof -
  have mem: "msg20 \<in> set (audio_messages db1)"
    by (simp add: db1_def)
  have mem_old: "msg20 \<in> set (audio_messages db_old)"
    by (simp add: db_old_def db1_def)
  have pk: "pk_audio_messages db1"
    by (simp add: pk_audio_messages_def db1_def)
  have ids: "m_id msg20 = 20" "m_sender_id msg20 = 3"
    by (simp_all add: msg20_def)
  have member: "\<exists>cp \<in> set (conversation_participants db1).
                  cp_conversation_id cp = m_conversation_id msg20 \<and> cp_user_id cp = 3"
    by (simp add: example_defs)
  have no_member: "\<not> (\<exists>cp \<in> set (conversation_participants db_old).
                  cp_conversation_id cp = m_conversation_id msg20 \<and> cp_user_id cp = 3)"
    by (simp add: db_old_def example_defs)
  have gone: "msg20 \<notin> set (audio_messages (delete_audio_message 3 20 db1))"
    using only_sender_deletes [OF mem, of 3] ids member by simp
  have director: "delete_audio_message 1 20 db1 = db1"
    using only_sender_deletes [OF mem, of 1] pk ids by simp
  have mentor: "msg20 \<in> set (audio_messages (delete_audio_message 2 20 db1))"
    using only_sender_deletes [OF mem, of 2] ids by simp
  have stays: "msg20 \<in> set (audio_messages (delete_audio_message 3 20 db_old))"
    using only_sender_deletes [OF mem_old, of 3] ids no_member by simp
  show ?thesis
    using mem gone director mentor stays by simp
qed

section \<open>Folder items\<close>

lemma folder_owner_iff:
  assumes "pk_folders d"
  shows "fid \<in> set (map f_id (filter (\<lambda>f. f_owner_id f = R) (folders d))) \<longleftrightarrow>
           folder_owner d fid = Some R"
proof -
  have uniq: "find (\<lambda>f. f_id f = f_id x) fs = Some x"
    if "distinct (map f_id fs)" "x \<in> set fs" for fs :: "folder list" and x
    using that
  proof (induction fs)
    case Nil
    then show ?case by simp
  next
    case (Cons a fs)
    then show ?case by (cases "a = x") force+
  qed
  show ?thesis
  proof
    assume "fid \<in> set (map f_id (filter (\<lambda>f. f_owner_id f = R) (folders d)))"
    then obtain x where x: "x \<in> set (folders d)" "f_id x = fid" "f_owner_id x = R"
      by auto
    then show "folder_owner d fid = Some R"
      using uniq [of "folders d" x] assms by (auto simp: folder_owner_def pk_folders_def)
  next
    assume "folder_owner d fid = Some R"
    then obtain x where "find (\<lambda>f. f_id f = fid) (folders d) = Some x" "f_owner_id x = R"
      by (auto simp: folder_owner_def)
    then show "fid \<in> set (map f_id (filter (\<lambda>f. f_owner_id f = R) (folders d)))"
      by (force simp: find_Some_iff)
  qed
qed

lemma message_conversation_iff:
  assumes "pk_audio_messages d"
  shows "(\<exists>m \<in> set (audio_messages d). m_id m = mid \<and> Q (m_conversation_id m)) \<longleftrightarrow>
           (\<exists>c. message_conversation d mid = Some c \<and> Q c)"
proof -
  have uniq: "find (\<lambda>m. m_id m = m_id x) ms = Some x"
    if "distinct (map m_id ms)" "x \<in> set ms" for ms :: "audio_message list" and x
    using that
  proof (induction ms)
    case Nil
    then show ?case by simp
  next
    case (Cons a ms)
    then show ?case by (cases "a = x") force+
  qed
  show ?thesis
  proof
    assume "\<exists>m \<in> set (audio_messages d). m_id m = mid \<and> Q (m_conversation_id m)"
    then obtain x where x: "x \<in> set (audio_messages d)" "m_id x = mid" "Q (m_conversation_id x)"
      by auto
    then show "\<exists>c. message_conversation d mid = Some c \<and> Q c"
      using uniq [of "audio_messages d" x] assms
      by (auto simp: message_conversation_def pk_audio_messages_def)
  next
    assume "\<exists>c. message_conversation d mid = Some c \<and> Q c"
    then obtain x where "find (\<lambda>m. m_id m = mid) (audio_messages d) = Some x"
      "Q (m_conversation_id x)"
      by (auto simp: message_conversation_def)
    then show "\<exists>m \<in> set (audio_messages d). m_id m = mid \<and> Q (m_conversation_id m)"
      by (force simp: find_Some_iff)
  qed
qed

lemma folder_items_insert_policy_plain:
  "folder_items_insert_policy d R NEW \<longleftrightarrow>
     fi_folder_id NEW \<in> set (map f_id (filter (\<lambda>f. f_owner_id f = R) (folders d)))
     \<and> (\<exists>m \<in> set (audio_messages d).
           m_id m = fi_message_id NEW \<and> is_conversation_member d R (m_conversation_id m))"
  by (auto simp: folder_items_insert_policy_def select_folders_def folders_policy_def
      select_audio_messages_def audio_messages_select_policy_def)

lemma folder_items_insert_policy_iff:
  assumes "pk_folders d" and "pk_audio_messages d"
  shows "folder_items_insert_policy d R NEW \<longleftrightarrow>
           folder_owner d (fi_folder_id NEW) = Some R
           \<and> (\<exists>c. message_conversation d (fi_message_id NEW) = Some c
                  \<and> is_conversation_member d R c)"
  unfolding folder_items_insert_policy_plain
  using folder_owner_iff [OF assms(1), of "fi_folder_id NEW" R]
    message_conversation_iff [OF assms(2), of "fi_message_id NEW" "is_conversation_member d R"]
  by simp

text \<open>
  C7, as stated, fails on a repeated insert: the requester owns the folder and is a member
  of the message's conversation, and the insert still raises, because the pair
  (folder, message) is the primary key of the table and is already there.
\<close>

theorem folder_item_repeated_insert_fails:
  "folder_owner db2 (fi_folder_id item30) = Some 3
   \<and> message_conversation db2 (fi_message_id item30) = Some 10
   \<and> is_conversation_member db2 3 10
   \<and> insert_folder_item 3 item30 db2 = Inl (Unique_violation ''folder_items_pkey'')"
  by (simp add: folder_owner_def message_conversation_def is_conversation_member_def
      insert_folder_item_def folder_items_insert_policy_plain db2_def item30_def
      example_defs)

text \<open>
  C7, amended. On a database that satisfies the primary keys of folders and messages, a
  folder item insert by a requester succeeds iff (a) the referenced folder's owner is
  the requester, (b) the requester has a membership row for the conversation of the
  referenced message, and (c) the pair (folder, message) is not yet an item. If (a) or
  (b) fails the insert is denied by the row-level-security check.
\<close>

theorem folder_item_insert_succeeds_iff:
  assumes "pk_folders d" and "pk_audio_messages d"
  shows "((\<exists>d'. insert_folder_item R NEW d = Inr d') \<longleftrightarrow>
            folder_owner d (fi_folder_id NEW) = Some R
            \<and> (\<exists>c. message_conversation d (fi_message_id NEW) = Some c
                   \<and> is_conversation_member d R c)
            \<and> \<not> (\<exists>x \<in> set (folder_items d).
                     fi_folder_id x = fi_folder_id NEW \<and> fi_message_id x = fi_message_id NEW))
    \<and> (\<not> (folder_owner d (fi_folder_id NEW) = Some R
            \<and> (\<exists>c. message_conversation d (fi_message_id NEW) = Some c
                   \<and> is_conversation_member d R c)) \<longrightarrow>
         run (insert_folder_item R NEW) d = (d, Some Insufficient_privilege))"
proof -
  note pol = folder_items_insert_policy_iff [OF assms, of R NEW]
  have fk1: "\<exists>f \<in> set (folders d). f_id f = fi_folder_id NEW"
    if "folder_items_insert_policy d R NEW"
    using that by (auto simp: folder_items_insert_policy_plain)
  have fk2: "\<exists>m \<in> set (audio_messages d). m_id m = fi_message_id NEW"
    if "folder_items_insert_policy d R NEW"
    using that by (auto simp: folder_items_insert_policy_plain)
  have ok: "(\<exists>d'. insert_folder_item R NEW d = Inr d') \<longleftrightarrow>
      folder_items_insert_policy d R NEW
      \<and> \<not> (\<exists>x \<in> set (folder_items d).
               fi_folder_id x = fi_folder_id NEW \<and> fi_message_id x = fi_message_id NEW)"
    using fk1 fk2 by (auto simp: insert_folder_item_def)
  have denied: "run (insert_folder_item R NEW) d = (d, Some Insufficient_privilege)"
    if "\<not> folder_items_insert_policy d R NEW"
    using that by (simp add: insert_folder_item_def run_def)
  show ?thesis
    using ok denied pol by blast
qed

theorem folder_item_insert_succeeds_iff_witness:
  "pk_folders db1 \<and> pk_audio_messages db1
   \<and> (\<exists>d'. insert_folder_item 3 item30 db1 = Inr d')
   \<and> run (insert_folder_item 4 \<lparr>fi_folder_id = 31, fi_message_id = 20\<rparr>) db1
       = (db1, Some Insufficient_privilege)
   \<and> run (insert_folder_item 2 item30) db1 = (db1, Some Insufficient_privilege)"
proof -
  have pk: "pk_folders db1" "pk_audio_messages db1"
    by (simp_all add: pk_folders_def pk_audio_messages_def db1_def)
  have a3: "folder_owner db1 (fi_folder_id item30) = Some 3"
    and b3: "\<exists>c. message_conversation db1 (fi_message_id item30) = Some c
                 \<and> is_conversation_member db1 3 c"
    and c3: "\<not> (\<exists>x \<in> set (folder_items db1).
               fi_folder_id x = fi_folder_id item30 \<and> fi_message_id x = fi_message_id item30)"
    by (simp_all add: folder_owner_def message_conversation_def is_conversation_member_def
        item30_def example_defs)
  have b4: "\<not> (\<exists>c. message_conversation db1
                      (fi_message_id \<lparr>fi_folder_id = 31, fi_message_id = 20\<rparr>) = Some c
                 \<and> is_conversation_member db1 4 c)"
    by (simp add: message_conversation_def is_conversation_member_def example_defs)
  have a2: "folder_owner db1 (fi_folder_id item30) \<noteq> Some 2"
    by (simp add: folder_owner_def item30_def example_defs)
  have ok: "\<exists>d'. insert_folder_item 3 item30 db1 = Inr d'"
    using folder_item_insert_succeeds_iff [OF pk, of 3 item30] a3 b3 c3 by blast
  have no4: "run (insert_folder_item 4 \<lparr>fi_folder_id = 31, fi_message_id = 20\<rparr>) db1
       = (db1, Some Insufficient_privilege)"
    using folder_item_insert_succeeds_iff [OF pk, of 4 "\<lparr>fi_folder_id = 31, fi_message_id = 20\<rparr>"]
      b4 by blast
  have no2: "run (insert_folder_item 2 item30) db1 = (db1, Some Insufficient_privilege)"
    using folder_item_insert_succeeds_iff [OF pk, of 2 item30] a2 by blast
  show ?thesis
    using pk ok no4 no2 by simp
qed

section \<open>Role matching on conversation insert\<close>

text \<open>
  C8, as stated, fails: a mentor inserts a conversation whose client reference is another
  mentor. The requester equals the mentor reference, so the policy passes; both
  references resolve, so the foreign keys pass; the row is persisted, and its client
  reference resolves to a profile of role mentor.
\<close>

theorem conversation_with_mentor_as_client_persists:
  "insert_conversation 2 conv11 db0 = Inr db11
   \<and> conv11 \<in> set (conversations db11)
   \<and> role_of db11 (c_client_id conv11) = Some Mentor
   \<and> \<not> conversation_roles_match db11 conv11"
  by (simp add: insert_conversation_def conversations_insert_policy_def
      add_conversation_participants_def insert_conversation_participant_def
      select_director_id_def role_of_def conversation_roles_match_def
      db11_def conv11_def example_defs)

lemma trigger_never_denies:
  "add_conversation_participants NEW d \<noteq> Inl Insufficient_privilege"
  by (auto simp: add_conversation_participants_def insert_conversation_participant_def
      Let_def split: sum.splits option.splits if_splits)

lemma trigger_succeeds_iff:
  assumes "\<forall>cp \<in> set (conversation_participants d). cp_conversation_id cp \<noteq> c_id NEW"
    and "\<exists>c \<in> set (conversations d). c_id c = c_id NEW"
    and "\<exists>p \<in> set (profiles d). p_id p = c_client_id NEW"
    and "\<exists>p \<in> set (profiles d). p_id p = c_mentor_id NEW"
  shows "(\<exists>d'. add_conversation_participants NEW d = Inr d') \<longleftrightarrow>
           c_client_id NEW \<noteq> c_mentor_id NEW
           \<and> (\<forall>dir. select_director_id d (c_mentor_id NEW) = Some dir \<longrightarrow>
                  dir \<noteq> c_client_id NEW \<and> dir \<noteq> c_mentor_id NEW
                  \<and> (\<exists>p \<in> set (profiles d). p_id p = dir))"
proof -
  define d1 where "d1 = d\<lparr>conversation_participants := conversation_participants d @
    [\<lparr>cp_conversation_id = c_id NEW, cp_user_id = c_client_id NEW, cp_role = Client\<rparr>]\<rparr>"
  define d2 where "d2 = d1\<lparr>conversation_participants := conversation_participants d1 @
    [\<lparr>cp_conversation_id = c_id NEW, cp_user_id = c_mentor_id NEW, cp_role = Mentor\<rparr>]\<rparr>"
  have first: "insert_conversation_participant
      \<lparr>cp_conversation_id = c_id NEW, cp_user_id = c_client_id NEW, cp_role = Client\<rparr> d = Inr d1"
    using assms by (auto simp: insert_conversation_participant_def d1_def)
  have second: "insert_conversation_participant
      \<lparr>cp_conversation_id = c_id NEW, cp_user_id = c_mentor_id NEW, cp_role = Mentor\<rparr> d1 =
      (if c_client_id NEW = c_mentor_id NEW
       then Inl (Unique_violation ''conversation_participants_pkey'') else Inr d2)"
    using assms by (auto simp: insert_conversation_participant_def d1_def d2_def)
  have third: "(\<exists>d'. insert_conversation_participant
      \<lparr>cp_conversation_id = c_id NEW, cp_user_id = dir, cp_role = Training_director\<rparr> d2 = Inr d')
      \<longleftrightarrow> dir \<noteq> c_client_id NEW \<and> dir \<noteq> c_mentor_id NEW
           \<and> (\<exists>p \<in> set (profiles d). p_id p = dir)" for dir
    using assms by (auto simp: insert_conversation_participant_def d1_def d2_def)
  have trig: "add_conversation_participants NEW d =
      (if c_client_id NEW = c_mentor_id NEW
       then Inl (Unique_violation ''conversation_participants_pkey'')
       else (case select_director_id d (c_mentor_id NEW) of
               None \<Rightarrow> Inr d2
             | Some dir \<Rightarrow>
                 insert_conversation_participant
                   \<lparr>cp_conversation_id = c_id NEW, cp_user_id = dir,
                    cp_role = Training_director\<rparr> d2))"
    by (simp add: add_conversation_participants_def first second)
  show ?thesis
    unfolding trig using third by (auto split: option.splits)
qed

text \<open>
  C8, amended. Every persisted conversation row has a client reference and a mentor
  reference that each resolve to an existing profile, of whatever role: a conversation
  insert that succeeds keeps this referential invariant and adds the row. The insert
  passes the row-level-security check iff the requester is the client reference, or is
  the mentor reference, or is the mentor of the client reference's profile. On a
  database that satisfies the foreign key of the membership table it succeeds iff, in
  addition, the id is new, both references resolve, the two references differ, and the
  director reference of the mentor's profile, when there is one, is neither of them and
  resolves. No condition reads the role of a referenced profile.
\<close>

theorem conversation_references_resolve:
  "(fk_conversations_profiles d \<and> insert_conversation uid NEW d = Inr d' \<longrightarrow>
      fk_conversations_profiles d' \<and> NEW \<in> set (conversations d'))
   \<and> (insert_conversation uid NEW d \<noteq> Inl Insufficient_privilege \<longleftrightarrow>
        c_client_id NEW = uid \<or> c_mentor_id NEW = uid
        \<or> (\<exists>p \<in> set (profiles d). p_id p = c_client_id NEW \<and> p_mentor_id p = Some uid))
   \<and> (fk_participants_conversations d \<longrightarrow>
        ((\<exists>d2. insert_conversation uid NEW d = Inr d2) \<longleftrightarrow>
           (c_client_id NEW = uid \<or> c_mentor_id NEW = uid
            \<or> (\<exists>p \<in> set (profiles d). p_id p = c_client_id NEW \<and> p_mentor_id p = Some uid))
           \<and> \<not> (\<exists>c \<in> set (conversations d). c_id c = c_id NEW)
           \<and> (\<exists>p \<in> set (profiles d). p_id p = c_client_id NEW)
           \<and> (\<exists>p \<in> set (profiles d). p_id p = c_mentor_id NEW)
           \<and> c_client_id NEW \<noteq> c_mentor_id NEW
           \<and> (\<forall>dir. select_director_id d (c_mentor_id NEW) = Some dir \<longrightarrow>
                  dir \<noteq> c_client_id NEW \<and> dir \<noteq> c_mentor_id NEW
                  \<and> (\<exists>p \<in> set (profiles d). p_id p = dir))))"
proof -
  have inv: "fk_conversations_profiles d' \<and> NEW \<in> set (conversations d')"
    if fk: "fk_conversations_profiles d" and ins: "insert_conversation uid NEW d = Inr d'"
  proof -
    note d' = insert_conversation_Inr(1) [OF ins]
    have convs: "conversations d' = conversations d @ [NEW]"
      and profs: "profiles d' = profiles d"
      using d' by simp_all
    have "fk_conversations_profiles d'"
      using fk insert_conversation_Inr(4,5) [OF ins]
      by (auto simp: fk_conversations_profiles_def convs profs)
    then show ?thesis by (simp add: convs)
  qed
  have perm: "insert_conversation uid NEW d \<noteq> Inl Insufficient_privilege \<longleftrightarrow>
        c_client_id NEW = uid \<or> c_mentor_id NEW = uid
        \<or> (\<exists>p \<in> set (profiles d). p_id p = c_client_id NEW \<and> p_mentor_id p = Some uid)"
    using trigger_never_denies [of NEW "d\<lparr>conversations := conversations d @ [NEW]\<rparr>"]
    by (auto simp: insert_conversation_def conversations_insert_policy_def)
  have succ: "(\<exists>d2. insert_conversation uid NEW d = Inr d2) \<longleftrightarrow>
           (c_client_id NEW = uid \<or> c_mentor_id NEW = uid
            \<or> (\<exists>p \<in> set (profiles d). p_id p = c_client_id NEW \<and> p_mentor_id p = Some uid))
           \<and> \<not> (\<exists>c \<in> set (conversations d). c_id c = c_id NEW)
           \<and> (\<exists>p \<in> set (profiles d). p_id p = c_client_id NEW)
           \<and> (\<exists>p \<in> set (profiles d). p_id p = c_mentor_id NEW)
           \<and> c_client_id NEW \<noteq> c_mentor_id NEW
           \<and> (\<forall>dir. select_director_id d (c_mentor_id NEW) = Some dir \<longrightarrow>
                  dir \<noteq> c_client_id NEW \<and> dir \<noteq> c_mentor_id NEW
                  \<and> (\<exists>p \<in> set (profiles d). p_id p = dir))"
    if fk: "fk_participants_conversations d"
  proof (cases "conversations_insert_policy d uid NEW
           \<and> \<not> (\<exists>c \<in> set (conversations d). c_id c = c_id NEW)
           \<and> (\<exists>p \<in> set (profiles d). p_id p = c_client_id NEW)
           \<and> (\<exists>p \<in> set (profiles d). p_id p = c_mentor_id NEW)")
    case True
    define e where "e = d\<lparr>conversations := conversations d @ [NEW]\<rparr>"
    have fresh: "\<forall>cp \<in> set (conversation_participants e). cp_conversation_id cp \<noteq> c_id NEW"
      using fk True by (auto simp: fk_participants_conversations_def e_def)
    have there: "\<exists>c \<in> set (conversations e). c_id c = c_id NEW"
      by (simp add: e_def)
    have refs: "\<exists>p \<in> set (profiles e). p_id p = c_client_id NEW"
      "\<exists>p \<in> set (profiles e). p_id p = c_mentor_id NEW"
      using True by (simp_all add: e_def)
    have sel: "select_director_id e (c_mentor_id NEW) = select_director_id d (c_mentor_id NEW)"
      and profs: "profiles e = profiles d"
      by (simp_all add: select_director_id_def e_def)
    have run_trigger: "insert_conversation uid NEW d = add_conversation_participants NEW e"
      using True by (simp add: insert_conversation_def e_def)
    have key: "(\<exists>d2. add_conversation_participants NEW e = Inr d2) \<longleftrightarrow>
           c_client_id NEW \<noteq> c_mentor_id NEW
           \<and> (\<forall>dir. select_director_id d (c_mentor_id NEW) = Some dir \<longrightarrow>
                  dir \<noteq> c_client_id NEW \<and> dir \<noteq> c_mentor_id NEW
                  \<and> (\<exists>p \<in> set (profiles d). p_id p = dir))"
      using trigger_succeeds_iff [OF fresh there refs] by (simp only: sel profs)
    show ?thesis
      using key True by (simp add: run_trigger conversations_insert_policy_def)
  next
    case False
    then have "\<exists>err. insert_conversation uid NEW d = Inl err"
      by (auto simp: insert_conversation_def)
    then show ?thesis
      using False by (auto simp: conversations_insert_policy_def)
  qed
  show ?thesis
    using inv perm succ by blast
qed

theorem conversation_references_resolve_witness:
  "fk_conversations_profiles db0 \<and> fk_participants_conversations db0
   \<and> insert_conversation 2 conv11 db0 = Inr db11
   \<and> fk_conversations_profiles db11
   \<and> conv11 \<in> set (conversations db11)
   \<and> (\<exists>d2. insert_conversation 3 conv10 db0 = Inr d2)
   \<and> insert_conversation 4 conv10 db0 = Inl Insufficient_privilege"
proof -
  have fk: "fk_conversations_profiles db0" and fkp: "fk_participants_conversations db0"
    by (simp_all add: fk_conversations_profiles_def fk_participants_conversations_def db0_def)
  have ins: "insert_conversation 2 conv11 db0 = Inr db11"
    by (simp add: insert_conversation_def conversations_insert_policy_def
        add_conversation_participants_def insert_conversation_participant_def
        select_director_id_def db11_def conv11_def example_defs)
  have kept: "fk_conversations_profiles db11 \<and> conv11 \<in> set (conversations db11)"
    using conversation_references_resolve [of db0 2 conv11 db11] fk ins by blast
  have client: "c_client_id conv10 = 3"
    and fresh: "\<not> (\<exists>c \<in> set (conversations db0). c_id c = c_id conv10)"
    and refs: "\<exists>p \<in> set (profiles db0). p_id p = c_client_id conv10"
      "\<exists>p \<in> set (profiles db0). p_id p = c_mentor_id conv10"
    and differ: "c_client_id conv10 \<noteq> c_mentor_id conv10"
    and dir: "\<forall>dir. select_director_id db0 (c_mentor_id conv10) = Some dir \<longrightarrow>
                  dir \<noteq> c_client_id conv10 \<and> dir \<noteq> c_mentor_id conv10
                  \<and> (\<exists>p \<in> set (profiles db0). p_id p = dir)"
    by (simp_all add: select_director_id_def example_defs)
  have ok: "\<exists>d2. insert_conversation 3 conv10 db0 = Inr d2"
    using conversation_references_resolve [of db0 3 conv10] fkp client fresh refs differ dir
    by blast
  have stranger: "\<not> (c_client_id conv10 = 4 \<or> c_mentor_id conv10 = 4
        \<or> (\<exists>p \<in> set (profiles db0). p_id p = c_client_id conv10 \<and> p_mentor_id p = Some 4))"
    by (simp add: example_defs)
  have denied: "insert_conversation 4 conv10 db0 = Inl Insufficient_privilege"
    using conversation_references_resolve [of db0 4 conv10] stranger by blast
  show ?thesis
    using fk fkp ins kept ok denied by simp
qed

section \<open>Duplicate keys: creation against backfill\<close>

lemma member_mono:
  assumes "set (conversation_participants d) \<subseteq> set (conversation_participants d')"
    and "is_conversation_member d u k"
  shows "is_conversation_member d' u k"
  using assms by (auto simp: is_conversation_member_def)

lemma do_nothing_rows:
  assumes "\<forall>r \<in> set rs. (\<exists>c \<in> set (conversations d). c_id c = cp_conversation_id r)
                        \<and> (\<exists>p \<in> set (profiles d). p_id p = cp_user_id r)"
  shows "\<exists>d'. insert_rows insert_conversation_participant_do_nothing rs d = Inr d'
           \<and> conversations d' = conversations d \<and> profiles d' = profiles d
           \<and> set (conversation_participants d) \<subseteq> set (conversation_participants d')
           \<and> (\<forall>r \<in> set rs. is_conversation_member d' (cp_user_id r) (cp_conversation_id r))"
  using assms
proof (induction rs arbitrary: d)
  case Nil
  then show ?case by simp
next
  case (Cons r rs)
  show ?case
  proof (cases "is_conversation_member d (cp_user_id r) (cp_conversation_id r)")
    case True
    then have step: "insert_conversation_participant_do_nothing r d = Inr d"
      by (simp add: insert_conversation_participant_do_nothing_def is_conversation_member_def)
    obtain d' where d': "insert_rows insert_conversation_participant_do_nothing rs d = Inr d'"
      "conversations d' = conversations d" "profiles d' = profiles d"
      "set (conversation_participants d) \<subseteq> set (conversation_participants d')"
      "\<forall>x \<in> set rs. is_conversation_member d' (cp_user_id x) (cp_conversation_id x)"
      using Cons.IH [of d] Cons.prems by auto
    have "is_conversation_member d' (cp_user_id r) (cp_conversation_id r)"
      using member_mono [OF d'(4) True] .
    with d' step show ?thesis by simp
  next
    case False
    define e where "e = d\<lparr>conversation_participants := conversation_participants d @ [r]\<rparr>"
    have step: "insert_conversation_participant_do_nothing r d = Inr e"
      using False Cons.prems
      by (auto simp: insert_conversation_participant_do_nothing_def is_conversation_member_def
          insert_conversation_participant_def e_def)
    have pre: "\<forall>x \<in> set rs. (\<exists>c \<in> set (conversations e). c_id c = cp_conversation_id x)
                        \<and> (\<exists>p \<in> set (profiles e). p_id p = cp_user_id x)"
      using Cons.prems by (simp add: e_def)
    obtain d' where d': "insert_rows insert_conversation_participant_do_nothing rs e = Inr d'"
      "conversations d' = conversations e" "profiles d' = profiles e"
      "set (conversation_participants e) \<subseteq> set (conversation_participants d')"
      "\<forall>x \<in> set rs. is_conversation_member d' (cp_user_id x) (cp_conversation_id x)"
      using Cons.IH [OF pre] by auto
    have "is_conversation_member e (cp_user_id r) (cp_conversation_id r)"
      by (auto simp: is_conversation_member_def e_def)
    then have "is_conversation_member d' (cp_user_id r) (cp_conversation_id r)"
      using member_mono [OF d'(4)] by simp
    moreover have "set (conversation_participants d) \<subseteq> set (conversation_participants d')"
      using d'(4) by (auto simp: e_def)
    ultimately show ?thesis
      using d' step by (simp add: e_def)
  qed
qed

lemma do_nothing_rows_present:
  assumes "\<forall>r \<in> set rs. is_conversation_member d (cp_user_id r) (cp_conversation_id r)"
  shows "insert_rows insert_conversation_participant_do_nothing rs d = Inr d"
  using assms
  by (induction rs)
     (auto simp: insert_conversation_participant_do_nothing_def is_conversation_member_def)

lemma plain_rows:
  assumes "distinct (map (\<lambda>r. (cp_conversation_id r, cp_user_id r)) rs)"
    and "\<forall>r \<in> set rs. \<not> is_conversation_member d (cp_user_id r) (cp_conversation_id r)"
    and "\<forall>r \<in> set rs. (\<exists>c \<in> set (conversations d). c_id c = cp_conversation_id r)
                        \<and> (\<exists>p \<in> set (profiles d). p_id p = cp_user_id r)"
  shows "insert_rows insert_conversation_participant rs d =
           Inr (d\<lparr>conversation_participants := conversation_participants d @ rs\<rparr>)"
  using assms
proof (induction rs arbitrary: d)
  case Nil
  then show ?case by simp
next
  case (Cons r rs)
  define e where "e = d\<lparr>conversation_participants := conversation_participants d @ [r]\<rparr>"
  have step: "insert_conversation_participant r d = Inr e"
    using Cons.prems(2,3)
    by (simp add: insert_conversation_participant_def is_conversation_member_def e_def)
  have fresh: "\<forall>x \<in> set rs. \<not> is_conversation_member e (cp_user_id x) (cp_conversation_id x)"
    using Cons.prems(1,2)
    by (force simp: is_conversation_member_def e_def)
  have fk: "\<forall>x \<in> set rs. (\<exists>c \<in> set (conversations e). c_id c = cp_conversation_id x)
                        \<and> (\<exists>p \<in> set (profiles e). p_id p = cp_user_id x)"
    using Cons.prems(3) by (simp add: e_def)
  have "insert_rows insert_conversation_participant rs e =
           Inr (e\<lparr>conversation_participants := conversation_participants e @ rs\<rparr>)"
    using Cons.IH [OF _ fresh fk] Cons.prems(1) by simp
  then show ?case
    using step by (simp add: e_def)
qed

lemma backfill_directors_ok:
  "\<exists>d'. backfill_directors d = Inr d'
         \<and> conversations d' = conversations d \<and> profiles d' = profiles d
         \<and> set (conversation_participants d) \<subseteq> set (conversation_participants d')
         \<and> (\<forall>r \<in> set (backfill_director_rows d).
               is_conversation_member d' (cp_user_id r) (cp_conversation_id r))"
  unfolding backfill_directors_def
  by (rule do_nothing_rows) (auto simp: backfill_director_rows_def)

lemma backfill_director_rows_cong:
  assumes "conversations d' = conversations d" and "profiles d' = profiles d"
  shows "backfill_director_rows d' = backfill_director_rows d"
  unfolding backfill_director_rows_def assms by (rule refl)

lemma rows_ids:
  "map cp_conversation_id
     [\<lparr>cp_conversation_id = c_id c, cp_user_id = f c, cp_role = ro\<rparr>. c \<leftarrow> cs, P c] =
   map c_id (filter P cs)"
  by (induction cs) auto

lemma backfill_clients_ok:
  assumes "pk_conversations d" and "fk_conversations_profiles d"
  shows "backfill_clients d =
           Inr (d\<lparr>conversation_participants :=
                    conversation_participants d @ backfill_client_rows d\<rparr>)"
  unfolding backfill_clients_def
proof (rule plain_rows)
  have "distinct (map cp_conversation_id (backfill_client_rows d))"
    unfolding backfill_client_rows_def rows_ids
    using assms(1) by (simp add: pk_conversations_def distinct_map_filter)
  then have "distinct (map (\<lambda>r. cp_conversation_id r) (backfill_client_rows d))"
    by simp
  then show "distinct (map (\<lambda>r. (cp_conversation_id r, cp_user_id r)) (backfill_client_rows d))"
    by (simp add: distinct_map inj_on_def)
next
  show "\<forall>r \<in> set (backfill_client_rows d).
          \<not> is_conversation_member d (cp_user_id r) (cp_conversation_id r)"
    by (auto simp: backfill_client_rows_def is_conversation_member_def)
next
  show "\<forall>r \<in> set (backfill_client_rows d).
          (\<exists>c \<in> set (conversations d). c_id c = cp_conversation_id r)
          \<and> (\<exists>p \<in> set (profiles d). p_id p = cp_user_id r)"
    using assms(2) by (auto simp: backfill_client_rows_def fk_conversations_profiles_def)
qed

lemma backfill_mentors_ok:
  assumes "pk_conversations d" and "fk_conversations_profiles d"
  shows "backfill_mentors d =
           Inr (d\<lparr>conversation_participants :=
                    conversation_participants d @ backfill_mentor_rows d\<rparr>)"
  unfolding backfill_mentors_def
proof (rule plain_rows)
  have "distinct (map cp_conversation_id (backfill_mentor_rows d))"
    unfolding backfill_mentor_rows_def rows_ids
    using assms(1) by (simp add: pk_conversations_def distinct_map_filter)
  then have "distinct (map (\<lambda>r. cp_conversation_id r) (backfill_mentor_rows d))"
    by simp
  then show "distinct (map (\<lambda>r. (cp_conversation_id r, cp_user_id r)) (backfill_mentor_rows d))"
    by (simp add: distinct_map inj_on_def)
next
  show "\<forall>r \<in> set (backfill_mentor_rows d).
          \<not> is_conversation_member d (cp_user_id r) (cp_conversation_id r)"
    by (auto simp: backfill_mentor_rows_def is_conversation_member_def)
next
  show "\<forall>r \<in> set (backfill_mentor_rows d).
          (\<exists>c \<in> set (conversations d). c_id c = cp_conversation_id r)
          \<and> (\<exists>p \<in> set (profiles d). p_id p = cp_user_id r)"
    using assms(2) by (auto simp: backfill_mentor_rows_def fk_conversations_profiles_def)
qed

lemma no_rows_selected:
  assumes "\<forall>c \<in> set cs. \<not> P c"
  shows "[f c. c \<leftarrow> cs, P c] = []"
  using assms by (induction cs) auto

lemma restless_bush_rerun:
  assumes "pk_conversations d" and "fk_conversations_profiles d"
  shows "\<exists>d'. restless_bush d = Inr d' \<and> restless_bush d' = Inr d'"
proof -
  obtain d1 where d1: "backfill_directors d = Inr d1"
    "conversations d1 = conversations d" "profiles d1 = profiles d"
    "\<forall>r \<in> set (backfill_director_rows d).
       is_conversation_member d1 (cp_user_id r) (cp_conversation_id r)"
    using backfill_directors_ok [of d] by blast
  have pk1: "pk_conversations d1" and fk1: "fk_conversations_profiles d1"
    using assms d1(2,3) by (simp_all add: pk_conversations_def fk_conversations_profiles_def)
  define d2 where
    "d2 = d1\<lparr>conversation_participants := conversation_participants d1 @ backfill_client_rows d1\<rparr>"
  have c2: "backfill_clients d1 = Inr d2"
    using backfill_clients_ok [OF pk1 fk1] by (simp add: d2_def)
  have same2: "conversations d2 = conversations d" "profiles d2 = profiles d"
    using d1(2,3) by (simp_all add: d2_def)
  have pk2: "pk_conversations d2" and fk2: "fk_conversations_profiles d2"
    using assms same2 by (simp_all add: pk_conversations_def fk_conversations_profiles_def)
  define d3 where
    "d3 = d2\<lparr>conversation_participants := conversation_participants d2 @ backfill_mentor_rows d2\<rparr>"
  have c3: "backfill_mentors d2 = Inr d3"
    using backfill_mentors_ok [OF pk2 fk2] by (simp add: d3_def)
  have same3: "conversations d3 = conversations d" "profiles d3 = profiles d"
    using same2 by (simp_all add: d3_def)
  have first: "restless_bush d = Inr d3"
    by (simp add: restless_bush_def d1(1) c2 c3)
  have sub12: "set (conversation_participants d1) \<subseteq> set (conversation_participants d2)"
    by (auto simp: d2_def)
  have sub23: "set (conversation_participants d2) \<subseteq> set (conversation_participants d3)"
    by (auto simp: d3_def)
  have sub13: "set (conversation_participants d1) \<subseteq> set (conversation_participants d3)"
    using sub12 sub23 by blast
  have "\<forall>r \<in> set (backfill_director_rows d3).
          is_conversation_member d3 (cp_user_id r) (cp_conversation_id r)"
    using d1(4) member_mono [OF sub13] backfill_director_rows_cong [OF same3] by simp
  then have r1: "backfill_directors d3 = Inr d3"
    unfolding backfill_directors_def by (rule do_nothing_rows_present)
  have clients: "is_conversation_member d3 (c_client_id c) (c_id c)"
    if c: "c \<in> set (conversations d3)" for c
  proof (cases "is_conversation_member d1 (c_client_id c) (c_id c)")
    case True
    then show ?thesis using member_mono [OF sub13] by blast
  next
    case False
    then have "\<lparr>cp_conversation_id = c_id c, cp_user_id = c_client_id c, cp_role = Client\<rparr>
                 \<in> set (backfill_client_rows d1)"
      using c same3(1) d1(2)
      by (auto simp: backfill_client_rows_def is_conversation_member_def)
    then have "\<lparr>cp_conversation_id = c_id c, cp_user_id = c_client_id c, cp_role = Client\<rparr>
                 \<in> set (conversation_participants d3)"
      using sub23 by (auto simp: d2_def)
    then show ?thesis
      by (force simp: is_conversation_member_def)
  qed
  have "backfill_client_rows d3 = []"
    unfolding backfill_client_rows_def
    by (rule no_rows_selected) (use clients in \<open>simp add: is_conversation_member_def\<close>)
  then have r2: "backfill_clients d3 = Inr d3"
    by (simp add: backfill_clients_def)
  have mentors: "is_conversation_member d3 (c_mentor_id c) (c_id c)"
    if c: "c \<in> set (conversations d3)" for c
  proof (cases "is_conversation_member d2 (c_mentor_id c) (c_id c)")
    case True
    then show ?thesis using member_mono [OF sub23] by blast
  next
    case False
    then have "\<lparr>cp_conversation_id = c_id c, cp_user_id = c_mentor_id c, cp_role = Mentor\<rparr>
                 \<in> set (backfill_mentor_rows d2)"
      using c same3(1) same2(1)
      by (auto simp: backfill_mentor_rows_def is_conversation_member_def)
    then have "\<lparr>cp_conversation_id = c_id c, cp_user_id = c_mentor_id c, cp_role = Mentor\<rparr>
                 \<in> set (conversation_participants d3)"
      by (auto simp: d3_def)
    then show ?thesis
      by (force simp: is_conversation_member_def)
  qed
  have "backfill_mentor_rows d3 = []"
    unfolding backfill_mentor_rows_def
    by (rule no_rows_selected) (use mentors in \<open>simp add: is_conversation_member_def\<close>)
  then have r3: "backfill_mentors d3 = Inr d3"
    by (simp add: backfill_mentors_def)
  have "restless_bush d3 = Inr d3"
    by (simp add: restless_bush_def r1 r2 r3)
  with first show ?thesis by blast
qed

lemma trigger_conflict_raises:
  assumes "c_client_id NEW = c_mentor_id NEW
           \<or> select_director_id d (c_mentor_id NEW) = Some (c_client_id NEW)
           \<or> select_director_id d (c_mentor_id NEW) = Some (c_mentor_id NEW)"
  shows "\<exists>e. add_conversation_participants NEW d = Inl e"
proof (cases "insert_conversation_participant
        \<lparr>cp_conversation_id = c_id NEW, cp_user_id = c_client_id NEW, cp_role = Client\<rparr> d")
  case (Inl e)
  then show ?thesis by (simp add: add_conversation_participants_def)
next
  case first: (Inr d1)
  note d1 = insert_conversation_participant_Inr(1) [OF first]
  show ?thesis
  proof (cases "insert_conversation_participant
        \<lparr>cp_conversation_id = c_id NEW, cp_user_id = c_mentor_id NEW, cp_role = Mentor\<rparr> d1")
    case (Inl e)
    then show ?thesis using first by (simp add: add_conversation_participants_def)
  next
    case second: (Inr d2)
    note d2 = insert_conversation_participant_Inr(1) [OF second]
    have distinct_refs: "c_client_id NEW \<noteq> c_mentor_id NEW"
      using insert_conversation_participant_Inr(2) [OF second] d1 by auto
    then obtain dir where dir: "select_director_id d (c_mentor_id NEW) = Some dir"
      "dir = c_client_id NEW \<or> dir = c_mentor_id NEW"
      using assms by auto
    have "insert_conversation_participant
            \<lparr>cp_conversation_id = c_id NEW, cp_user_id = dir, cp_role = Training_director\<rparr> d2
          = Inl (Unique_violation ''conversation_participants_pkey'')"
      using dir(2) d1 d2 by (auto simp: insert_conversation_participant_def)
    then show ?thesis
      using first second dir(1) by (simp add: add_conversation_participants_def)
  qed
qed

text \<open>
  C4, as stated, fails: the mentor's director is also the client of the new conversation,
  so the trigger's third insert repeats the key of its first. The conflict is not
  absorbed: the statement raises the unique violation and nothing is persisted.
\<close>

theorem creation_conflict_is_raised:
  "run (insert_conversation 2 conv13) db0
     = (db0, Some (Unique_violation ''conversation_participants_pkey''))"
  by (simp add: run_def insert_conversation_def conversations_insert_policy_def
      add_conversation_participants_def insert_conversation_participant_def
      select_director_id_def conv13_def example_defs)

text \<open>
  C4, amended. During conversation creation a duplicate-key conflict on a membership
  insert is not absorbed: when the client is the mentor, or the mentor's director is the
  client or the mentor, the creation raises and the database stays as it was. The
  backfill migration absorbs existing rows: on a database that satisfies the primary key
  and the foreign keys of conversations it completes without error, and run again on
  its own result it completes without error and changes nothing.
\<close>

theorem creation_raises_backfill_absorbs:
  "(c_client_id NEW = c_mentor_id NEW
      \<or> select_director_id d (c_mentor_id NEW) = Some (c_client_id NEW)
      \<or> select_director_id d (c_mentor_id NEW) = Some (c_mentor_id NEW) \<longrightarrow>
      (\<exists>e. run (insert_conversation uid NEW) d = (d, Some e)))
   \<and> (pk_conversations d \<and> fk_conversations_profiles d \<longrightarrow>
        (\<exists>d'. restless_bush d = Inr d' \<and> restless_bush d' = Inr d'))"
proof -
  have "\<exists>e. run (insert_conversation uid NEW) d = (d, Some e)"
    if conflict: "c_client_id NEW = c_mentor_id NEW
      \<or> select_director_id d (c_mentor_id NEW) = Some (c_client_id NEW)
      \<or> select_director_id d (c_mentor_id NEW) = Some (c_mentor_id NEW)"
  proof -
    have "select_director_id (d\<lparr>conversations := conversations d @ [NEW]\<rparr>) (c_mentor_id NEW)
            = select_director_id d (c_mentor_id NEW)"
      by (simp add: select_director_id_def)
    then obtain e where
      "add_conversation_participants NEW (d\<lparr>conversations := conversations d @ [NEW]\<rparr>) = Inl e"
      using trigger_conflict_raises [of NEW "d\<lparr>conversations := conversations d @ [NEW]\<rparr>"]
        conflict
      by auto
    then have "\<exists>e. insert_conversation uid NEW d = Inl e"
      by (simp add: insert_conversation_def)
    then show ?thesis by (auto simp: run_def)
  qed
  then show ?thesis
    using restless_bush_rerun [of d] by blast
qed

theorem creation_raises_backfill_absorbs_witness:
  "(\<exists>e. run (insert_conversation 2 conv13) db0 = (db0, Some e))
   \<and> (\<exists>d'. restless_bush db_old = Inr d' \<and> restless_bush d' = Inr d')
   \<and> restless_bush db_old =
       Inr (db_old\<lparr>conversation_participants :=
         [\<lparr>cp_conversation_id = 10, cp_user_id = 1, cp_role = Training_director\<rparr>,
          \<lparr>cp_conversation_id = 10, cp_user_id = 3, cp_role = Client\<rparr>,
          \<lparr>cp_conversation_id = 10, cp_user_id = 2, cp_role = Mentor\<rparr>]\<rparr>)"
proof -
  have dir: "select_director_id db0 (c_mentor_id conv13) = Some (c_client_id conv13)"
    by (simp add: select_director_id_def conv13_def example_defs)
  have pk: "pk_conversations db_old" and fk: "fk_conversations_profiles db_old"
    by (simp_all add: pk_conversations_def fk_conversations_profiles_def db_old_def example_defs)
  have val: "restless_bush db_old =
       Inr (db_old\<lparr>conversation_participants :=
         [\<lparr>cp_conversation_id = 10, cp_user_id = 1, cp_role = Training_director\<rparr>,
          \<lparr>cp_conversation_id = 10, cp_user_id = 3, cp_role = Client\<rparr>,
          \<lparr>cp_conversation_id = 10, cp_user_id = 2, cp_role = Mentor\<rparr>]\<rparr>)"
    by (simp add: restless_bush_def backfill_directors_def backfill_director_rows_def
        backfill_clients_def backfill_client_rows_def backfill_mentors_def
        backfill_mentor_rows_def insert_conversation_participant_do_nothing_def
        insert_conversation_participant_def db_old_def example_defs)
  show ?thesis
    using dir pk fk val creation_raises_backfill_absorbs [of conv13 db0 2]
      creation_raises_backfill_absorbs [of conv13 db_old 2]
    by blast
qed

section \<open>The recorder has no forced stop\<close>

lemma recorder_step_keeps_recording:
  assumes "mediaRecorder r = Some True" and "isRecording r"
    and "e \<noteq> Click_stop" and "e \<noteq> Unmount"
  shows "mediaRecorder (recorder_step e r) = Some True \<and> isRecording (recorder_step e r)"
  using assms
  by (cases e) (auto simp: startRecording_def updateTimer_def rerender_def)

lemma recorder_run_keeps_recording:
  assumes "mediaRecorder r = Some True" and "isRecording r"
    and "Click_stop \<notin> set es" and "Unmount \<notin> set es"
  shows "mediaRecorder (recorder_run es r) = Some True \<and> isRecording (recorder_run es r)"
  using assms
proof (induction es arbitrary: r)
  case Nil
  then show ?case by simp
next
  case (Cons e es)
  have "e \<noteq> Click_stop" "e \<noteq> Unmount" "Click_stop \<notin> set es" "Unmount \<notin> set es"
    using Cons.prems(3,4) by auto
  then show ?case
    using Cons.IH recorder_step_keeps_recording [OF Cons.prems(1,2)] by simp
qed

text \<open>
  C9 does not hold of this component. A session starts at clock 1: the MediaRecorder
  records, and the render that follows runs the effect's cleanup, which clears the
  interval. The browser serves its timers at clock 901001, with no click on stop and no
  unmount in between: nothing runs, the MediaRecorder is still recording 901000 ms
  after the start, beyond the 900000 ms of 15 minutes, and the recording time shown is
  still 0. As \<open>recorder_run_keeps_recording\<close> shows, no run of events without a click on
  stop or an unmount ends the capture.
\<close>

theorem recorder_still_recording_after_15_minutes:
  "recorder_run [Click_start True 1, Timers_served 901001] recorder_initial
     = \<lparr>isRecording = True, recordingTime = 0, audioBlob = False,
        mediaRecorder = Some True, timerRef = True, intervalActive = False,
        startTimeRef = 1\<rparr>
   \<and> 15 * 60 * 1000 < 901001 - startTimeRef
        (recorder_run [Click_start True 1, Timers_served 901001] recorder_initial)"
  by (simp add: recorder_initial_def startRecording_def rerender_def effect_cleanup_def)

end
